theory Spec2Isabelle
  imports Main
begin

section \<open>Python strings\<close>

text \<open>
  A Python \<open>str\<close> is modelled as a \<open>string\<close>: a list of characters, one per code point
  (code points below 256), so that \<open>length\<close> is Python's \<open>len\<close>.
\<close>

definition NL :: char where
  "NL = CHR 0x0A"

text \<open>The paragraph delimiter, the literal \<open>"\n\n"\<close> of the source.\<close>

definition PARA_SEP :: string where
  "PARA_SEP = [NL, NL]"

text \<open>
  \<open>str.isspace\<close> on one character: tab, line feed, vertical tab, form feed, carriage
  return, the four separators 0x1C to 0x1F, space, next line (0x85) and no-break space
  (0xA0).
\<close>

definition isspace :: "char \<Rightarrow> bool" where
  "isspace c =
     (let n = (of_char c :: nat)
      in (9 \<le> n \<and> n \<le> 13) \<or> (28 \<le> n \<and> n \<le> 31) \<or> n = 32 \<or> n = 133 \<or> n = 160)"

definition lstrip :: "string \<Rightarrow> string" where
  "lstrip s = dropWhile isspace s"

definition rstrip :: "string \<Rightarrow> string" where
  "rstrip s = rev (dropWhile isspace (rev s))"

text \<open>\<open>s.strip()\<close> with no argument: whitespace goes from both ends.\<close>

definition strip :: "string \<Rightarrow> string" where
  "strip s = lstrip (rstrip s)"

text \<open>\<open>s.startswith(p)\<close> and \<open>s.endswith(p)\<close>.\<close>

definition startswith :: "string \<Rightarrow> string \<Rightarrow> bool" where
  "startswith s p = (take (length p) s = p)"

definition endswith :: "string \<Rightarrow> string \<Rightarrow> bool" where
  "endswith s p = (length p \<le> length s \<and> drop (length s - length p) s = p)"

text \<open>
  \<open>s.split(sep)\<close> for a non-empty separator: the scan goes left to right, \<open>acc\<close> holds
  the piece read so far, and an occurrence of the separator closes the piece. The
  result always has at least one piece. (Python raises ValueError on an empty
  separator; every call of the source passes a literal.)
\<close>

function split_from :: "string \<Rightarrow> string \<Rightarrow> string \<Rightarrow> string list" where
  "split_from sep acc s =
     (if s = [] then [acc]
      else if sep \<noteq> [] \<and> startswith s sep
           then acc # split_from sep [] (drop (length sep) s)
           else split_from sep (acc @ [hd s]) (tl s))"
  by pat_completeness auto
termination
  by (relation "measure (\<lambda>(sep, acc, s). length s)") auto

declare split_from.simps [simp del]

definition split :: "string \<Rightarrow> string \<Rightarrow> string list" where
  "split s sep = split_from sep [] s"

text \<open>\<open>sep.join(xs)\<close>.\<close>

fun join :: "string \<Rightarrow> string list \<Rightarrow> string" where
  "join sep [] = []"
| "join sep [x] = x"
| "join sep (x # y # ys) = x @ sep @ join sep (y # ys)"

section \<open>The chunker\<close>

text \<open>
  The loop of \<open>paragraph_chunk_split\<close> (\<open>agents.py\<close>) over the paragraphs, with its two
  variables \<open>chunks\<close> and \<open>current_chunk\<close>. \<open>chunk_size\<close> is a Python int. An empty
  string is falsy, so \<open>if current_chunk\<close> is the test \<open>current_chunk \<noteq> []\<close>.
  \<open>paragraph_chunk_split_async\<close> of \<open>main.py\<close> has the same body, line for line.
\<close>

fun chunk_loop :: "int \<Rightarrow> string list \<Rightarrow> string list \<Rightarrow> string \<Rightarrow> string list \<times> string" where
  "chunk_loop chunk_size [] chunks current_chunk = (chunks, current_chunk)"
| "chunk_loop chunk_size (para # paragraphs) chunks current_chunk =
     (let para_with_newline = strip para @ PARA_SEP
      in if int (length current_chunk) + int (length para_with_newline) > chunk_size
         then chunk_loop chunk_size paragraphs
                (if current_chunk \<noteq> [] then chunks @ [strip current_chunk] else chunks)
                para_with_newline
         else chunk_loop chunk_size paragraphs chunks (current_chunk @ para_with_newline))"

definition paragraph_chunk_split :: "string \<Rightarrow> int \<Rightarrow> string list" where
  "paragraph_chunk_split text chunk_size =
     (let paragraphs = split text PARA_SEP;
          (chunks, current_chunk) = chunk_loop chunk_size paragraphs [] []
      in if current_chunk \<noteq> [] then chunks @ [strip current_chunk] else chunks)"

text \<open>
  The flush that ends \<open>paragraph_chunk_split\<close>, as a function of the loop's result: the
  invariants of the loop below are stated with it.
\<close>

definition final_flush :: "string list \<times> string \<Rightarrow> string list" where
  "final_flush r = (if snd r \<noteq> [] then fst r @ [strip (snd r)] else fst r)"

text \<open>
  The paragraph content of a text: its paragraphs, stripped, without the ones that strip
  to nothing. \<open>piece_content\<close> is the same reading of a list of pieces.
\<close>

definition piece_content :: "string list \<Rightarrow> string list" where
  "piece_content ps = filter (\<lambda>p. p \<noteq> []) (map strip ps)"

definition paragraph_content :: "string \<Rightarrow> string list" where
  "paragraph_content s = piece_content (split s PARA_SEP)"

text \<open>Whether a string holds the paragraph delimiter somewhere.\<close>

fun has_sep :: "string \<Rightarrow> bool" where
  "has_sep (a # b # cs) = ((a = NL \<and> b = NL) \<or> has_sep (b # cs))"
| "has_sep [a] = False"
| "has_sep [] = False"

section \<open>Exceptions and the external collaborators\<close>

text \<open>
  The exceptions the model distinguishes, each a subclass of Python's \<open>Exception\<close>
  carrying its message (for \<open>KeyError\<close>, the missing key). \<open>Exception\<close> stands for
  any failure raised by an external library.
\<close>

datatype exn = ValueError string | KeyError string | Exception string

text \<open>\<open>str(e)\<close>: the message; for a \<open>KeyError\<close> the quoted key.\<close>

fun str_exn :: "exn \<Rightarrow> string" where
  "str_exn (ValueError m) = m"
| "str_exn (KeyError k) = [CHR 0x27] @ k @ [CHR 0x27]"
| "str_exn (Exception m) = m"

text \<open>
  The external collaborators are parameters of the model. Each acts on a world \<open>'w\<close>
  (the file system, the remote text service) that it may change, and either returns or
  raises:
  \<^item> \<open>pdf_load\<close>, \<open>docx_load\<close>: \<open>PDFPlumberLoader(path).load()\<close> and
    \<open>Docx2txtLoader(path).load()\<close>, as the list of the documents' \<open>page_content\<close>;
  \<^item> \<open>llm_ainvoke\<close>: \<open>llm.ainvoke(prompt)\<close>, as the response's \<open>content\<close>;
  \<^item> \<open>makedirs\<close>: \<open>os.makedirs(dir, exist_ok=True)\<close>;
  \<^item> \<open>docx_save\<close>: a new \<open>Document\<close>, one \<open>add_paragraph\<close> per element, then
    \<open>save(path)\<close>;
  \<^item> \<open>ainvoke_none\<close>: the exception with which the workflow engine refuses the input
    \<open>None\<close>.
\<close>

record 'w env =
  pdf_load :: "string \<Rightarrow> 'w \<Rightarrow> (exn + string list) \<times> 'w"
  docx_load :: "string \<Rightarrow> 'w \<Rightarrow> (exn + string list) \<times> 'w"
  llm_ainvoke :: "string \<Rightarrow> 'w \<Rightarrow> (exn + string) \<times> 'w"
  makedirs :: "string \<Rightarrow> 'w \<Rightarrow> (exn + unit) \<times> 'w"
  docx_save :: "string list \<Rightarrow> string \<Rightarrow> 'w \<Rightarrow> (exn + unit) \<times> 'w"
  ainvoke_none :: exn

section \<open>The workflow state and its nodes\<close>

record ComplianceState =
  file_path :: string
  original_text :: string
  chunks :: "string list"
  compliance_reports :: "string list"
  corrected_chunks :: "string list"
  final_corrected_doc :: string
  output_path :: string

text \<open>\<open>ComplianceState(file_path=file_path)\<close>: every other field takes its default.\<close>

definition new_state :: "string \<Rightarrow> ComplianceState" where
  "new_state fp =
     \<lparr>file_path = fp, original_text = [], chunks = [], compliance_reports = [],
      corrected_chunks = [], final_corrected_doc = [], output_path = []\<rparr>"

text \<open>A node takes the state and the world, and returns the new state or raises.\<close>

type_synonym 'w node = "ComplianceState \<Rightarrow> 'w \<Rightarrow> (exn + ComplianceState) \<times> 'w"

definition load_document_node :: "'w env \<Rightarrow> 'w node" where
  "load_document_node env state w =
     (if endswith (file_path state) ''.pdf'' then
        (case pdf_load env (file_path state) w of
           (Inl e, w') \<Rightarrow> (Inl e, w')
         | (Inr docs, w') \<Rightarrow> (Inr (state\<lparr>original_text := join PARA_SEP docs\<rparr>), w'))
      else if endswith (file_path state) ''.docx'' then
        (case docx_load env (file_path state) w of
           (Inl e, w') \<Rightarrow> (Inl e, w')
         | (Inr docs, w') \<Rightarrow> (Inr (state\<lparr>original_text := join PARA_SEP docs\<rparr>), w'))
      else (Inl (ValueError ''Only PDF and DOCX supported.''), w))"

definition chunk_text_node :: "'w env \<Rightarrow> 'w node" where
  "chunk_text_node env state w =
     (Inr (state\<lparr>chunks := paragraph_chunk_split (original_text state) 2000\<rparr>), w)"

definition check_prompt :: "string \<Rightarrow> string" where
  "check_prompt chunk =
     ''Check the following text for compliance with English grammar, style, clarity, '' @
     ''and professional writing rules. Return a structured JSON report:'' @ [NL, NL] @ chunk"

text \<open>The loop of \<open>compliance_check_node\<close>: one call of the text service per chunk, in order.\<close>

fun check_loop :: "'w env \<Rightarrow> string list \<Rightarrow> string list \<Rightarrow> 'w \<Rightarrow> (exn + string list) \<times> 'w" where
  "check_loop env [] reports w = (Inr reports, w)"
| "check_loop env (chunk # rest) reports w =
     (case llm_ainvoke env (check_prompt chunk) w of
        (Inl e, w') \<Rightarrow> (Inl e, w')
      | (Inr content, w') \<Rightarrow> check_loop env rest (reports @ [content]) w')"

definition compliance_check_node :: "'w env \<Rightarrow> 'w node" where
  "compliance_check_node env state w =
     (case check_loop env (chunks state) [] w of
        (Inl e, w') \<Rightarrow> (Inl e, w')
      | (Inr reports, w') \<Rightarrow> (Inr (state\<lparr>compliance_reports := reports\<rparr>), w'))"

definition correct_prompt :: "string \<Rightarrow> string" where
  "correct_prompt chunk =
     ''Correct the following text to fully comply with English grammar, style, clarity, '' @
     ''and professional writing rules.'' @ [NL, NL] @
     ''INSTRUCTIONS:'' @ [NL] @
     ''1. Return ONLY the corrected text.'' @ [NL] @
     ''2. Do NOT add any explanations, summaries, or extra comments.'' @ [NL] @
     ''3. Keep the original paragraph structure.'' @ [NL] @
     ''4. Maintain the original meaning.'' @ [NL, NL] @
     ''ORIGINAL TEXT:'' @ [NL] @ chunk @ [NL, NL] @
     ''CORRECTED TEXT:''"

text \<open>The loop of \<open>correct_document_node\<close>: each response is stripped before it is appended.\<close>

fun correct_loop :: "'w env \<Rightarrow> string list \<Rightarrow> string list \<Rightarrow> 'w \<Rightarrow> (exn + string list) \<times> 'w" where
  "correct_loop env [] corrected w = (Inr corrected, w)"
| "correct_loop env (chunk # rest) corrected w =
     (case llm_ainvoke env (correct_prompt chunk) w of
        (Inl e, w') \<Rightarrow> (Inl e, w')
      | (Inr content, w') \<Rightarrow> correct_loop env rest (corrected @ [strip content]) w')"

definition correct_document_node :: "'w env \<Rightarrow> 'w node" where
  "correct_document_node env state w =
     (case correct_loop env (chunks state) [] w of
        (Inl e, w') \<Rightarrow> (Inl e, w')
      | (Inr corrected, w') \<Rightarrow>
          (Inr (state\<lparr>corrected_chunks := corrected,
                      final_corrected_doc := join PARA_SEP corrected\<rparr>), w'))"

text \<open>\<open>os.path.basename\<close> and \<open>os.path.join\<close> of two components, on POSIX paths.\<close>

definition basename :: "string \<Rightarrow> string" where
  "basename p = rev (takeWhile (\<lambda>c. c \<noteq> CHR ''/'') (rev p))"

definition path_join :: "string \<Rightarrow> string \<Rightarrow> string" where
  "path_join a b =
     (if startswith b ''/'' then b
      else if a = [] \<or> endswith a ''/'' then a @ b
      else a @ ''/'' @ b)"

text \<open>
  \<open>save_corrected_doc_node\<close>. \<open>split\<close> never returns the empty list, so \<open>[0]\<close> is \<open>hd\<close>.
  A paragraph is written when its stripped text is not empty.
\<close>

definition save_corrected_doc_node :: "'w env \<Rightarrow> 'w node" where
  "save_corrected_doc_node env state w =
     (case makedirs env ''output'' w of
        (Inl e, w1) \<Rightarrow> (Inl e, w1)
      | (Inr u, w1) \<Rightarrow>
          (let file_id = hd (split (basename (file_path state)) ''.'');
               out = path_join ''output'' (''corrected_'' @ file_id @ ''.docx'');
               paras = map strip (filter (\<lambda>para. strip para \<noteq> [])
                                    (split (final_corrected_doc state) PARA_SEP))
           in case docx_save env paras out w1 of
                (Inl e, w2) \<Rightarrow> (Inl e, w2)
              | (Inr u', w2) \<Rightarrow> (Inr (state\<lparr>output_path := out\<rparr>), w2)))"

section \<open>The two workflows\<close>

text \<open>
  The graphs are built with the \<open>langgraph\<close> library and both are linear: an edge from
  one node to the next runs the second node on the state the first returned, and an
  exception raised by a node leaves \<open>ainvoke\<close> at once.
\<close>

definition then_node :: "'w node \<Rightarrow> 'w node \<Rightarrow> 'w node" where
  "then_node f g state w =
     (case f state w of
        (Inl e, w') \<Rightarrow> (Inl e, w')
      | (Inr state', w') \<Rightarrow> g state' w')"

text \<open>\<open>build_compliance_workflow\<close>: load, chunk, check.\<close>

definition compliance_workflow :: "'w env \<Rightarrow> 'w node" where
  "compliance_workflow env =
     then_node (load_document_node env)
       (then_node (chunk_text_node env) (compliance_check_node env))"

text \<open>\<open>build_correction_workflow\<close>: correct, save.\<close>

definition correction_workflow :: "'w env \<Rightarrow> 'w node" where
  "correction_workflow env =
     then_node (correct_document_node env) (save_corrected_doc_node env)"

section \<open>The job store and the stage executors\<close>

text \<open>
  One entry of \<open>file_storage\<close>, with the keys the upload handler gives it. The executors
  below are modelled as running one at a time: between the \<open>await\<close>s of one executor
  no other task touches the store.
\<close>

record file_info =
  fi_file_path :: string
  fi_original_filename :: string
  fi_status :: string
  fi_compliance_reports :: "string list"
  fi_chunks :: "string list"
  fi_original_text :: string
  fi_corrected_chunks :: "string list"
  fi_final_corrected_doc :: string
  fi_output_path :: string
  fi_state :: "ComplianceState option"
  fi_error :: "string option"

type_synonym file_storage = "string \<rightharpoonup> file_info"

text \<open>The entry \<open>upload_file\<close> stores for a new file.\<close>

definition new_file_info :: "string \<Rightarrow> string \<Rightarrow> file_info" where
  "new_file_info path filename =
     \<lparr>fi_file_path = path, fi_original_filename = filename, fi_status = ''uploaded'',
      fi_compliance_reports = [], fi_chunks = [], fi_original_text = [],
      fi_corrected_chunks = [], fi_final_corrected_doc = [], fi_output_path = [],
      fi_state = None, fi_error = None\<rparr>"

text \<open>
  The \<open>except Exception as e\<close> block of both executors. \<open>file_storage[file_id]\<close> raises
  \<open>KeyError\<close> when the entry is missing, and nothing catches that one.
\<close>

definition record_error :: "string \<Rightarrow> exn \<Rightarrow> file_storage \<Rightarrow> exn + file_storage" where
  "record_error file_id e fs =
     (case fs file_id of
        None \<Rightarrow> Inl (KeyError file_id)
      | Some info \<Rightarrow>
          Inr (fs(file_id \<mapsto> info\<lparr>fi_status := ''error'', fi_error := Some (str_exn e)\<rparr>)))"

text \<open>
  The \<open>try\<close> block of \<open>process_compliance_check\<close>. The result carries the store and the
  world as they are when the block ends or raises.
\<close>

definition compliance_try ::
  "'w env \<Rightarrow> string \<Rightarrow> string \<Rightarrow> file_storage \<Rightarrow> 'w \<Rightarrow> (exn + unit) \<times> file_storage \<times> 'w" where
  "compliance_try env file_id fp fs w =
     (case fs file_id of
        None \<Rightarrow> (Inl (KeyError file_id), fs, w)
      | Some info \<Rightarrow>
          (let info1 = info\<lparr>fi_status := ''processing_compliance''\<rparr>
           in case compliance_workflow env (new_state fp) w of
                (Inl e, w') \<Rightarrow> (Inl e, fs(file_id \<mapsto> info1), w')
              | (Inr state, w') \<Rightarrow>
                  (Inr (),
                   fs(file_id \<mapsto> info1\<lparr>fi_compliance_reports := compliance_reports state,
                                         fi_chunks := chunks state,
                                         fi_original_text := original_text state,
                                         fi_state := Some state,
                                         fi_status := ''compliance_complete''\<rparr>),
                   w')))"

definition process_compliance_check ::
  "'w env \<Rightarrow> string \<Rightarrow> string \<Rightarrow> file_storage \<Rightarrow> 'w \<Rightarrow> (exn + unit) \<times> file_storage \<times> 'w" where
  "process_compliance_check env file_id fp fs w =
     (case compliance_try env file_id fp fs w of
        (Inr u, fs', w') \<Rightarrow> (Inr u, fs', w')
      | (Inl e, fs', w') \<Rightarrow>
          (case record_error file_id e fs' of
             Inl e' \<Rightarrow> (Inl e', fs', w')
           | Inr fs'' \<Rightarrow> (Inr (), fs'', w')))"

text \<open>The \<open>try\<close> block of \<open>process_document_correction\<close>.\<close>

definition correction_try ::
  "'w env \<Rightarrow> string \<Rightarrow> file_storage \<Rightarrow> 'w \<Rightarrow> (exn + unit) \<times> file_storage \<times> 'w" where
  "correction_try env file_id fs w =
     (case fs file_id of
        None \<Rightarrow> (Inl (KeyError file_id), fs, w)
      | Some info \<Rightarrow>
          (let info1 = info\<lparr>fi_status := ''processing_correction''\<rparr>
           in case fi_state info1 of
                None \<Rightarrow> (Inl (ainvoke_none env), fs(file_id \<mapsto> info1), w)
              | Some state0 \<Rightarrow>
                  (case correction_workflow env state0 w of
                     (Inl e, w') \<Rightarrow> (Inl e, fs(file_id \<mapsto> info1), w')
                   | (Inr state, w') \<Rightarrow>
                       (Inr (),
                        fs(file_id \<mapsto> info1\<lparr>fi_corrected_chunks := corrected_chunks state,
                                              fi_final_corrected_doc := final_corrected_doc state,
                                              fi_output_path := output_path state,
                                              fi_state := Some state,
                                              fi_status := ''correction_complete''\<rparr>),
                        w'))))"

definition process_document_correction ::
  "'w env \<Rightarrow> string \<Rightarrow> file_storage \<Rightarrow> 'w \<Rightarrow> (exn + unit) \<times> file_storage \<times> 'w" where
  "process_document_correction env file_id fs w =
     (case correction_try env file_id fs w of
        (Inr u, fs', w') \<Rightarrow> (Inr u, fs', w')
      | (Inl e, fs', w') \<Rightarrow>
          (case record_error file_id e fs' of
             Inl e' \<Rightarrow> (Inl e', fs', w')
           | Inr fs'' \<Rightarrow> (Inr (), fs'', w')))"

section \<open>The trigger boundary and the status query\<close>

datatype http_exception = HTTPException nat string

text \<open>What \<open>background_tasks.add_task\<close> queues: the executor and its arguments.\<close>

datatype task =
  Task_compliance_check string string
| Task_document_correction string

record ComplianceResponse =
  cr_file_id :: string
  cr_compliance_reports :: "string list"
  cr_message :: string

record CorrectionResponse =
  co_file_id :: string
  co_message :: string

record StatusResponse =
  sr_file_id :: string
  sr_status :: string
  sr_message :: "string option"
  sr_compliance_reports :: "string list option"

definition check_compliance ::
  "file_storage \<Rightarrow> task list \<Rightarrow> string \<Rightarrow> (http_exception + ComplianceResponse) \<times> task list" where
  "check_compliance fs tasks file_id =
     (case fs file_id of
        None \<Rightarrow> (Inl (HTTPException 404 ''File not found''), tasks)
      | Some info \<Rightarrow>
          if fi_status info \<notin> set [''uploaded'', ''compliance_complete'']
          then (Inl (HTTPException 400 (''File is currently '' @ fi_status info)), tasks)
          else (Inr \<lparr>cr_file_id = file_id, cr_compliance_reports = [],
                     cr_message = ''Compliance checking started. Check status for progress.''\<rparr>,
                tasks @ [Task_compliance_check file_id (fi_file_path info)]))"

definition correct_document ::
  "file_storage \<Rightarrow> task list \<Rightarrow> string \<Rightarrow> (http_exception + CorrectionResponse) \<times> task list" where
  "correct_document fs tasks file_id =
     (case fs file_id of
        None \<Rightarrow> (Inl (HTTPException 404 ''File not found''), tasks)
      | Some info \<Rightarrow>
          if fi_status info \<noteq> ''compliance_complete''
          then (Inl (HTTPException 400
                       (''File must be compliance checked first. Current status: '' @
                        fi_status info)), tasks)
          else (Inr \<lparr>co_file_id = file_id,
                     co_message = ''Document correction started. Check status for progress.''\<rparr>,
                tasks @ [Task_document_correction file_id]))"

text \<open>
  \<open>get_status\<close>. \<open>if file_info["error"]\<close> holds when the field is neither \<open>None\<close> nor the
  empty string; a status that no branch names leaves the message \<open>None\<close>.
\<close>

definition status_message :: "file_info \<Rightarrow> string option" where
  "status_message info =
     (if fi_error info \<noteq> None \<and> fi_error info \<noteq> Some [] then
        Some (''Error: '' @ the (fi_error info))
      else if fi_status info = ''uploaded'' then
        Some ''File uploaded, ready for compliance checking''
      else if fi_status info = ''processing_compliance'' then
        Some ''Compliance checking in progress...''
      else if fi_status info = ''compliance_complete'' then
        Some ''Compliance checking complete, ready for correction''
      else if fi_status info = ''processing_correction'' then
        Some ''Document correction in progress...''
      else if fi_status info = ''correction_complete'' then
        Some ''Document correction complete, ready for download''
      else None)"

definition get_status :: "file_storage \<Rightarrow> string \<Rightarrow> http_exception + StatusResponse" where
  "get_status fs file_id =
     (case fs file_id of
        None \<Rightarrow> Inl (HTTPException 404 ''File not found'')
      | Some info \<Rightarrow>
          Inr \<lparr>sr_file_id = file_id, sr_status = fi_status info,
               sr_message = status_message info,
               sr_compliance_reports = Some (fi_compliance_reports info)\<rparr>)"

text \<open>A queued task, run: the executor applied to its arguments.\<close>

fun run_task :: "'w env \<Rightarrow> task \<Rightarrow> file_storage \<Rightarrow> 'w \<Rightarrow> (exn + unit) \<times> file_storage \<times> 'w" where
  "run_task env (Task_compliance_check file_id fp) fs w = process_compliance_check env file_id fp fs w"
| "run_task env (Task_document_correction file_id) fs w = process_document_correction env file_id fs w"

section \<open>Sample collaborators\<close>

text \<open>
  Concrete collaborators on which the theorems below are exercised. The world is the
  number of calls the text service has received. The PDF loader returns the pages it is
  given, the DOCX loader fails, the text service fails on the calls whose number is in
  \<open>failing\<close> and otherwise answers with the length of the prompt as a row of stars
  between two spaces, and saving fails when \<open>save_ok\<close> is false.
\<close>

definition sample_answer :: "string \<Rightarrow> string" where
  "sample_answer prompt = '' '' @ replicate (length prompt) CHR ''*'' @ '' ''"

definition sample_env :: "string list \<Rightarrow> nat list \<Rightarrow> bool \<Rightarrow> nat env" where
  "sample_env pages failing save_ok =
     \<lparr>pdf_load = (\<lambda>path n. (Inr pages, n)),
      docx_load = (\<lambda>path n. (Inl (Exception ''Package not found''), n)),
      llm_ainvoke = (\<lambda>prompt n.
         (if n \<in> set failing then Inl (Exception ''429 quota exceeded'')
          else Inr (sample_answer prompt), Suc n)),
      makedirs = (\<lambda>dir n. (Inr (), n)),
      docx_save = (\<lambda>paras path n.
         (if save_ok then Inr () else Inl (Exception ''Permission denied''), n)),
      ainvoke_none = Exception ''Received no input''\<rparr>"

text \<open>A text of three paragraphs, the first of eight characters.\<close>

definition sample_text :: string where
  "sample_text = ''abcdefgh'' @ PARA_SEP @ ''x'' @ PARA_SEP @ ''y''"

text \<open>The store after one upload.\<close>

definition sample_store :: file_storage where
  "sample_store = [''job1'' \<mapsto> new_file_info ''temp_uploads/job1_a.pdf'' ''a.pdf'']"

text \<open>
  The workflow state and the entry of that job once its check has completed on a
  document whose only page is \<open>Hi.\<close>.
\<close>

definition sample_checked_state :: ComplianceState where
  "sample_checked_state =
     (new_state ''temp_uploads/job1_a.pdf'')
       \<lparr>original_text := ''Hi.'', chunks := [''Hi.''],
        compliance_reports := [sample_answer (check_prompt ''Hi.'')]\<rparr>"

definition sample_checked_info :: file_info where
  "sample_checked_info =
     (new_file_info ''temp_uploads/job1_a.pdf'' ''a.pdf'')
       \<lparr>fi_compliance_reports := [sample_answer (check_prompt ''Hi.'')],
        fi_chunks := [''Hi.''],
        fi_original_text := ''Hi.'',
        fi_state := Some sample_checked_state,
        fi_status := ''compliance_complete''\<rparr>"

text \<open>
  A second set of collaborators, none of which fails: the PDF loader returns the pages it
  is given and the text service answers with the prompt itself between two spaces, so
  that the answers to different chunks differ.
\<close>

definition echo_answer :: "string \<Rightarrow> string" where
  "echo_answer prompt = '' '' @ prompt @ '' ''"

definition echo_env :: "string list \<Rightarrow> nat env" where
  "echo_env pages =
     \<lparr>pdf_load = (\<lambda>path n. (Inr pages, n)),
      docx_load = (\<lambda>path n. (Inl (Exception ''Package not found''), n)),
      llm_ainvoke = (\<lambda>prompt n. (Inr (echo_answer prompt), Suc n)),
      makedirs = (\<lambda>dir n. (Inr (), n)),
      docx_save = (\<lambda>paras path n. (Inr (), n)),
      ainvoke_none = Exception ''Received no input''\<rparr>"

text \<open>
  Two pages of 1500 characters each: together they pass the 2000 characters of the Chunk
  node, so the document has two chunks.
\<close>

definition page_a :: string where
  "page_a = replicate 1500 CHR ''a''"

definition page_b :: string where
  "page_b = replicate 1500 CHR ''b''"

text \<open>
  The workflow state and the entry of the job once its check has completed on that
  document with the echoing text service, and once its correction has completed too.
\<close>

definition echo_checked_state :: ComplianceState where
  "echo_checked_state =
     (new_state ''temp_uploads/job1_a.pdf'')
       \<lparr>original_text := page_a @ PARA_SEP @ page_b,
        chunks := [page_a, page_b],
        compliance_reports := [echo_answer (check_prompt page_a), echo_answer (check_prompt page_b)]\<rparr>"

definition echo_checked_info :: file_info where
  "echo_checked_info =
     (new_file_info ''temp_uploads/job1_a.pdf'' ''a.pdf'')
       \<lparr>fi_compliance_reports :=
          [echo_answer (check_prompt page_a), echo_answer (check_prompt page_b)],
        fi_chunks := [page_a, page_b],
        fi_original_text := page_a @ PARA_SEP @ page_b,
        fi_state := Some echo_checked_state,
        fi_status := ''compliance_complete''\<rparr>"

definition echo_corrected_state :: ComplianceState where
  "echo_corrected_state =
     echo_checked_state
       \<lparr>corrected_chunks := [correct_prompt page_a, correct_prompt page_b],
        final_corrected_doc := correct_prompt page_a @ [NL, NL] @ correct_prompt page_b,
        output_path := ''output/corrected_job1_a.docx''\<rparr>"

definition echo_corrected_info :: file_info where
  "echo_corrected_info =
     echo_checked_info
       \<lparr>fi_corrected_chunks := [correct_prompt page_a, correct_prompt page_b],
        fi_final_corrected_doc := correct_prompt page_a @ [NL, NL] @ correct_prompt page_b,
        fi_output_path := ''output/corrected_job1_a.docx'',
        fi_state := Some echo_corrected_state,
        fi_status := ''correction_complete''\<rparr>"

section \<open>Basic facts\<close>

lemma split_from_Nil: "split_from sep acc [] = [acc]"
  by (simp add: split_from.simps)

lemma split_from_Cons:
  "split_from sep acc (c # s) =
     (if sep \<noteq> [] \<and> startswith (c # s) sep
      then acc # split_from sep [] (drop (length sep) (c # s))
      else split_from sep (acc @ [c]) s)"
  by (subst split_from.simps) simp

lemma then_node_Inl: "f state w = (Inl e, w') \<Longrightarrow> then_node f g state w = (Inl e, w')"
  by (simp add: then_node_def)

lemma then_node_Inr: "f state w = (Inr state', w') \<Longrightarrow> then_node f g state w = g state' w'"
  by (simp add: then_node_def)

lemma record_error_Some:
  "fs file_id = Some info \<Longrightarrow>
   record_error file_id e fs =
     Inr (fs(file_id \<mapsto> info\<lparr>fi_status := ''error'', fi_error := Some (str_exn e)\<rparr>))"
  by (simp add: record_error_def)

lemma process_compliance_check_Inl:
  assumes "fs file_id = Some info" and "compliance_workflow env (new_state fp) w = (Inl e, w')"
  shows "process_compliance_check env file_id fp fs w =
           (Inr (), fs(file_id \<mapsto> info\<lparr>fi_status := ''error'', fi_error := Some (str_exn e)\<rparr>), w')"
  using assms
  by (simp add: process_compliance_check_def compliance_try_def record_error_def)

lemma process_compliance_check_Inr:
  assumes "fs file_id = Some info" and "compliance_workflow env (new_state fp) w = (Inr state, w')"
  shows "process_compliance_check env file_id fp fs w =
           (Inr (),
            fs(file_id \<mapsto> info\<lparr>fi_compliance_reports := compliance_reports state,
                                  fi_chunks := chunks state,
                                  fi_original_text := original_text state,
                                  fi_state := Some state,
                                  fi_status := ''compliance_complete''\<rparr>), w')"
  using assms
  by (simp add: process_compliance_check_def compliance_try_def)

lemma process_document_correction_Inl:
  assumes "fs file_id = Some info" and "fi_state info = Some state0"
    and "correction_workflow env state0 w = (Inl e, w')"
  shows "process_document_correction env file_id fs w =
           (Inr (), fs(file_id \<mapsto> info\<lparr>fi_status := ''error'', fi_error := Some (str_exn e)\<rparr>), w')"
  using assms
  by (simp add: process_document_correction_def correction_try_def record_error_def)

lemma process_document_correction_None:
  assumes "fs file_id = Some info" and "fi_state info = None"
  shows "process_document_correction env file_id fs w =
           (Inr (), fs(file_id \<mapsto> info\<lparr>fi_status := ''error'',
                                        fi_error := Some (str_exn (ainvoke_none env))\<rparr>), w)"
  using assms
  by (simp add: process_document_correction_def correction_try_def record_error_def)

lemma process_document_correction_Inr:
  assumes "fs file_id = Some info" and "fi_state info = Some state0"
    and "correction_workflow env state0 w = (Inr state, w')"
  shows "process_document_correction env file_id fs w =
           (Inr (),
            fs(file_id \<mapsto> info\<lparr>fi_corrected_chunks := corrected_chunks state,
                                  fi_final_corrected_doc := final_corrected_doc state,
                                  fi_output_path := output_path state,
                                  fi_state := Some state,
                                  fi_status := ''correction_complete''\<rparr>), w')"
  using assms
  by (simp add: process_document_correction_def correction_try_def)

lemma compliance_workflow_cases:
  "compliance_workflow env state w =
     (case load_document_node env state w of
        (Inl e, w1) \<Rightarrow> (Inl e, w1)
      | (Inr s1, w1) \<Rightarrow>
          (case chunk_text_node env s1 w1 of
             (Inl e, w2) \<Rightarrow> (Inl e, w2)
           | (Inr s2, w2) \<Rightarrow> compliance_check_node env s2 w2))"
  by (simp add: compliance_workflow_def then_node_def split: prod.splits sum.splits)

lemma correction_workflow_cases:
  "correction_workflow env state w =
     (case correct_document_node env state w of
        (Inl e, w1) \<Rightarrow> (Inl e, w1)
      | (Inr s1, w1) \<Rightarrow> save_corrected_doc_node env s1 w1)"
  by (simp add: correction_workflow_def then_node_def split: prod.splits sum.splits)

lemma check_loop_abort:
  "check_loop env pre reports w = (Inr rs, w1) \<Longrightarrow>
   llm_ainvoke env (check_prompt c) w1 = (Inl e, w2) \<Longrightarrow>
   check_loop env (pre @ c # post) reports w = (Inl e, w2)"
  by (induction pre arbitrary: reports w) (auto split: prod.splits sum.splits)

lemma correct_loop_abort:
  "correct_loop env pre corrected w = (Inr rs, w1) \<Longrightarrow>
   llm_ainvoke env (correct_prompt c) w1 = (Inl e, w2) \<Longrightarrow>
   correct_loop env (pre @ c # post) corrected w = (Inl e, w2)"
  by (induction pre arbitrary: corrected w) (auto split: prod.splits sum.splits)

lemma status_message_error:
  "fi_error info = Some msg \<Longrightarrow> msg \<noteq> [] \<Longrightarrow> status_message info = Some (''Error: '' @ msg)"
  by (simp add: status_message_def)

lemma sample_chunks: "paragraph_chunk_split ''Hi.'' 2000 = [''Hi.'']"
  by (simp add: paragraph_chunk_split_def split_def split_from_Nil split_from_Cons startswith_def
      PARA_SEP_def NL_def strip_def lstrip_def rstrip_def isspace_def)

lemma sample_load_pdf:
  "load_document_node (sample_env pages failing ok) (new_state ''temp_uploads/job1_a.pdf'') n =
     (Inr ((new_state ''temp_uploads/job1_a.pdf'')\<lparr>original_text := join PARA_SEP pages\<rparr>), n)"
  by (simp add: load_document_node_def sample_env_def new_state_def endswith_def)

lemma sample_load_txt:
  "load_document_node env (new_state ''temp_uploads/job1_a.txt'') n =
     (Inl (ValueError ''Only PDF and DOCX supported.''), n)"
  by (simp add: load_document_node_def new_state_def endswith_def)

lemma sample_llm:
  "llm_ainvoke (sample_env pages failing ok) prompt n =
     (if n \<in> set failing then Inl (Exception ''429 quota exceeded'')
      else Inr (sample_answer prompt), Suc n)"
  by (simp add: sample_env_def)

lemma sample_makedirs: "makedirs (sample_env pages failing ok) dir n = (Inr (), n)"
  by (simp add: sample_env_def)

lemma sample_docx_save:
  "docx_save (sample_env pages failing ok) paras path n =
     (if ok then Inr () else Inl (Exception ''Permission denied''), n)"
  by (simp add: sample_env_def)

lemma sample_check_fails:
  "compliance_workflow (sample_env [''Hi.''] [0] True) (new_state ''temp_uploads/job1_a.pdf'') 0 =
     (Inl (Exception ''429 quota exceeded''), 1)"
  by (simp add: compliance_workflow_cases sample_load_pdf chunk_text_node_def sample_chunks
      compliance_check_node_def sample_llm)

lemma sample_check_succeeds:
  "compliance_workflow (sample_env [''Hi.''] [0] True) (new_state ''temp_uploads/job1_a.pdf'') 1 =
     (Inr ((new_state ''temp_uploads/job1_a.pdf'')
        \<lparr>original_text := ''Hi.'', chunks := [''Hi.''],
         compliance_reports := [sample_answer (check_prompt ''Hi.'')]\<rparr>), 2)"
  by (simp add: compliance_workflow_cases sample_load_pdf chunk_text_node_def sample_chunks
      compliance_check_node_def sample_llm)

section \<open>The chunker on the empty text\<close>

text \<open>
  C3. The spec gives an empty sequence for the empty text. The source does not:
  \<open>"".split("\n\n")\<close> is the one-element list \<open>[""]\<close>, the loop leaves the buffer
  \<open>"\n\n"\<close>, which is not empty, and the final flush appends its stripped text. For every
  \<open>chunk_size\<close> the result is the one-element list holding the empty chunk.
\<close>

theorem paragraph_chunk_split_empty_text:
  "paragraph_chunk_split [] chunk_size = [[]] \<and> length (paragraph_chunk_split [] chunk_size) = 1"
  by (simp add: paragraph_chunk_split_def split_def split_from_Nil PARA_SEP_def
      strip_def lstrip_def rstrip_def isspace_def NL_def Let_def)

text \<open>
  The same flush gives an empty chunk to a paragraph that strips to nothing when its
  neighbours are flushed on their own.
\<close>

lemma paragraph_chunk_split_empty_chunk:
  "paragraph_chunk_split (''abcd'' @ PARA_SEP @ '' '' @ PARA_SEP @ ''efgh'') 3 =
     [''abcd'', [], ''efgh'']"
  by (simp add: paragraph_chunk_split_def split_def split_from_Nil split_from_Cons startswith_def
      PARA_SEP_def NL_def strip_def lstrip_def rstrip_def isspace_def)

section \<open>The trigger boundary\<close>

text \<open>
  C4. For a job of the store, \<open>correct_document\<close> answers and queues the correction
  executor when the status is \<open>compliance_complete\<close>; for any other status it raises
  \<open>HTTPException\<close> with status code 400 and leaves the task queue as it was. It is
  accepted exactly when the status is \<open>compliance_complete\<close>.
\<close>

theorem correct_document_only_from_compliance_complete:
  assumes "fs file_id = Some info"
  shows "(fi_status info = ''compliance_complete'' \<longrightarrow>
            correct_document fs tasks file_id =
              (Inr \<lparr>co_file_id = file_id,
                    co_message = ''Document correction started. Check status for progress.''\<rparr>,
               tasks @ [Task_document_correction file_id]))
       \<and> (fi_status info \<noteq> ''compliance_complete'' \<longrightarrow>
            correct_document fs tasks file_id =
              (Inl (HTTPException 400
                      (''File must be compliance checked first. Current status: '' @
                       fi_status info)), tasks))
       \<and> ((\<exists>resp. fst (correct_document fs tasks file_id) = Inr resp) \<longleftrightarrow>
            fi_status info = ''compliance_complete'')"
  using assms by (simp add: correct_document_def)

theorem correct_document_only_from_compliance_complete_witness:
  "correct_document
     [''job1'' \<mapsto> (new_file_info ''temp_uploads/job1_a.pdf'' ''a.pdf'')\<lparr>fi_status := ''compliance_complete''\<rparr>]
     [] ''job1''
     = (Inr \<lparr>co_file_id = ''job1'',
             co_message = ''Document correction started. Check status for progress.''\<rparr>,
        [Task_document_correction ''job1''])
   \<and> correct_document
     [''job1'' \<mapsto> new_file_info ''temp_uploads/job1_a.pdf'' ''a.pdf'']
     [] ''job1''
     = (Inl (HTTPException 400
               ''File must be compliance checked first. Current status: uploaded''), [])"
  using correct_document_only_from_compliance_complete
      [of "[''job1'' \<mapsto> (new_file_info ''temp_uploads/job1_a.pdf'' ''a.pdf'')\<lparr>fi_status := ''compliance_complete''\<rparr>]"
          "''job1''"
          "(new_file_info ''temp_uploads/job1_a.pdf'' ''a.pdf'')\<lparr>fi_status := ''compliance_complete''\<rparr>"
          "[]"]
    correct_document_only_from_compliance_complete
      [of "[''job1'' \<mapsto> new_file_info ''temp_uploads/job1_a.pdf'' ''a.pdf'']"
          "''job1''"
          "new_file_info ''temp_uploads/job1_a.pdf'' ''a.pdf''"
          "[]"]
  by (simp add: new_file_info_def)

text \<open>
  C5 lets the Check stage be triggered again on a job whose status is \<open>error\<close>.
  The guard of \<open>check_compliance\<close> lists the two statuses it accepts, and \<open>error\<close> is
  not one of them: on the job below the trigger raises 400 and queues nothing.
\<close>

theorem check_compliance_from_error_counterexample:
  "check_compliance
     [''job1'' \<mapsto> (new_file_info ''temp_uploads/job1_a.pdf'' ''a.pdf'')
                      \<lparr>fi_status := ''error'', fi_error := Some ''boom''\<rparr>]
     [] ''job1''
   = (Inl (HTTPException 400 ''File is currently error''), [])"
  by (simp add: check_compliance_def new_file_info_def)

text \<open>
  C5, as the code has it. For a job of the store whose status is \<open>error\<close>,
  \<open>check_compliance\<close> raises \<open>HTTPException\<close> with status code 400 and leaves the task
  queue as it was. The trigger is accepted exactly when the status is \<open>uploaded\<close> or
  \<open>compliance_complete\<close>, and then it queues the check executor with the job's file path.
\<close>

theorem check_compliance_rejects_error:
  assumes "fs file_id = Some info"
  shows "(fi_status info = ''error'' \<longrightarrow>
            check_compliance fs tasks file_id =
              (Inl (HTTPException 400 ''File is currently error''), tasks))
       \<and> ((\<exists>resp. fst (check_compliance fs tasks file_id) = Inr resp) \<longleftrightarrow>
            fi_status info = ''uploaded'' \<or> fi_status info = ''compliance_complete'')
       \<and> (fi_status info = ''uploaded'' \<or> fi_status info = ''compliance_complete'' \<longrightarrow>
            check_compliance fs tasks file_id =
              (Inr \<lparr>cr_file_id = file_id, cr_compliance_reports = [],
                    cr_message = ''Compliance checking started. Check status for progress.''\<rparr>,
               tasks @ [Task_compliance_check file_id (fi_file_path info)]))
       \<and> (fi_status info \<noteq> ''uploaded'' \<and> fi_status info \<noteq> ''compliance_complete'' \<longrightarrow>
            check_compliance fs tasks file_id =
              (Inl (HTTPException 400 (''File is currently '' @ fi_status info)), tasks))"
  using assms by (auto simp add: check_compliance_def)

theorem check_compliance_rejects_error_witness:
  "check_compliance
     [''job1'' \<mapsto> (new_file_info ''temp_uploads/job1_a.pdf'' ''a.pdf'')\<lparr>fi_status := ''error''\<rparr>]
     [Task_document_correction ''job0''] ''job1''
   = (Inl (HTTPException 400 ''File is currently error''), [Task_document_correction ''job0''])
   \<and> check_compliance
     [''job1'' \<mapsto> new_file_info ''temp_uploads/job1_a.pdf'' ''a.pdf'']
     [] ''job1''
   = (Inr \<lparr>cr_file_id = ''job1'', cr_compliance_reports = [],
           cr_message = ''Compliance checking started. Check status for progress.''\<rparr>,
      [Task_compliance_check ''job1'' ''temp_uploads/job1_a.pdf''])"
  using check_compliance_rejects_error
      [of "[''job1'' \<mapsto> (new_file_info ''temp_uploads/job1_a.pdf'' ''a.pdf'')\<lparr>fi_status := ''error''\<rparr>]"
          "''job1''"
          "(new_file_info ''temp_uploads/job1_a.pdf'' ''a.pdf'')\<lparr>fi_status := ''error''\<rparr>"
          "[Task_document_correction ''job0'']"]
    check_compliance_rejects_error
      [of "[''job1'' \<mapsto> new_file_info ''temp_uploads/job1_a.pdf'' ''a.pdf'']"
          "''job1''"
          "new_file_info ''temp_uploads/job1_a.pdf'' ''a.pdf''"
          "[]"]
  by (simp add: new_file_info_def)

section \<open>The Load node\<close>

text \<open>
  C7. The node tests the path with \<open>endswith\<close>. When the path ends with neither
  \<open>.pdf\<close> nor \<open>.docx\<close> the node raises \<open>ValueError("Only PDF and DOCX supported.")\<close>
  before any loader is called and before \<open>original_text\<close> is assigned; run by the check
  executor on a job of the store, that failure leaves the job's \<open>original_text\<close> as it
  was. When the path ends with \<open>.pdf\<close> (or, failing that, \<open>.docx\<close>) and the loader
  returns, \<open>original_text\<close> becomes the loader's page contents joined by the paragraph
  delimiter.
\<close>

theorem load_document_node_formats:
  "(\<not> endswith (file_path state) ''.pdf'' \<and> \<not> endswith (file_path state) ''.docx'' \<longrightarrow>
      load_document_node env state w = (Inl (ValueError ''Only PDF and DOCX supported.''), w))
   \<and> (endswith (file_path state) ''.pdf'' \<and> pdf_load env (file_path state) w = (Inr docs, w') \<longrightarrow>
      load_document_node env state w = (Inr (state\<lparr>original_text := join PARA_SEP docs\<rparr>), w'))
   \<and> (\<not> endswith (file_path state) ''.pdf'' \<and> endswith (file_path state) ''.docx'' \<and>
      docx_load env (file_path state) w = (Inr docs, w') \<longrightarrow>
      load_document_node env state w = (Inr (state\<lparr>original_text := join PARA_SEP docs\<rparr>), w'))
   \<and> (fs file_id = Some info \<and> \<not> endswith fp ''.pdf'' \<and> \<not> endswith fp ''.docx'' \<longrightarrow>
      (\<exists>info'. process_compliance_check env file_id fp fs w = (Inr (), fs(file_id \<mapsto> info'), w) \<and>
         fi_original_text info' = fi_original_text info \<and>
         fi_status info' = ''error'' \<and>
         fi_error info' = Some ''Only PDF and DOCX supported.''))"
proof -
  have "fs file_id = Some info \<Longrightarrow> \<not> endswith fp ''.pdf'' \<Longrightarrow> \<not> endswith fp ''.docx'' \<Longrightarrow>
      compliance_workflow env (new_state fp) w =
        (Inl (ValueError ''Only PDF and DOCX supported.''), w)"
    by (simp add: compliance_workflow_cases load_document_node_def new_state_def)
  then have "fs file_id = Some info \<Longrightarrow> \<not> endswith fp ''.pdf'' \<Longrightarrow> \<not> endswith fp ''.docx'' \<Longrightarrow>
      process_compliance_check env file_id fp fs w =
        (Inr (), fs(file_id \<mapsto> info\<lparr>fi_status := ''error'',
            fi_error := Some (str_exn (ValueError ''Only PDF and DOCX supported.''))\<rparr>), w)"
    using process_compliance_check_Inl [where fs = fs and file_id = file_id and info = info
        and env = env and fp = fp and w = w and w' = w
        and e = "ValueError ''Only PDF and DOCX supported.''"]
    by simp
  then show ?thesis
    by (auto simp add: load_document_node_def)
qed

theorem load_document_node_formats_witness:
  "load_document_node (sample_env [''Page 1'', ''Page 2''] [] True)
       (new_state ''temp_uploads/job1_notes.PDF'') 0 =
     (Inl (ValueError ''Only PDF and DOCX supported.''), 0)
   \<and> load_document_node (sample_env [''Page 1'', ''Page 2''] [] True)
       (new_state ''temp_uploads/job1_a.pdf'') 0 =
     (Inr ((new_state ''temp_uploads/job1_a.pdf'')
            \<lparr>original_text := ''Page 1'' @ [NL, NL] @ ''Page 2''\<rparr>), 0)
   \<and> (\<exists>info'. process_compliance_check (sample_env [''Hi.''] [] True) ''job1''
          ''temp_uploads/job1_a.txt'' (sample_store(''job1'' \<mapsto> sample_checked_info)) 0 =
        (Inr (), (sample_store(''job1'' \<mapsto> sample_checked_info))(''job1'' \<mapsto> info'), 0) \<and>
        fi_original_text info' = fi_original_text sample_checked_info \<and>
        fi_status info' = ''error'' \<and>
        fi_error info' = Some ''Only PDF and DOCX supported.'')"
  using load_document_node_formats
      [where state = "new_state ''temp_uploads/job1_notes.PDF''"
         and env = "sample_env [''Page 1'', ''Page 2''] [] True" and w = 0]
    load_document_node_formats
      [where state = "new_state ''temp_uploads/job1_a.pdf''"
         and env = "sample_env [''Page 1'', ''Page 2''] [] True" and w = 0
         and docs = "[''Page 1'', ''Page 2'']" and w' = 0]
    load_document_node_formats
      [where fs = "sample_store(''job1'' \<mapsto> sample_checked_info)" and file_id = "''job1''"
         and info = sample_checked_info and fp = "''temp_uploads/job1_a.txt''"
         and env = "sample_env [''Hi.''] [] True" and w = 0]
  by (simp add: new_state_def endswith_def sample_env_def PARA_SEP_def)

section \<open>Failure of a stage\<close>

text \<open>
  C6. For a job of the store, when a node of a stage raises, the executor returns
  normally, the job's status is \<open>error\<close>, its \<open>error\<close> field holds \<open>str(e)\<close> of that very
  exception, and the world is the one the failing node left: no later node has run.
  This holds for the Load and Check nodes of the Check stage (the Chunk node calls
  nothing that raises) and for the Correct and Save nodes of the Correct stage. Inside
  the two loops, the first failing call of the text service ends the node: the chunks
  after it are not sent.
\<close>

theorem stage_failure_is_recorded:
  assumes "fs file_id = Some info"
  shows "(load_document_node env (new_state fp) w = (Inl e, w1) \<longrightarrow>
            process_compliance_check env file_id fp fs w =
              (Inr (), fs(file_id \<mapsto> info\<lparr>fi_status := ''error'', fi_error := Some (str_exn e)\<rparr>), w1))
       \<and> (load_document_node env (new_state fp) w = (Inr s1, w1) \<and>
          chunk_text_node env s1 w1 = (Inr s2, w2) \<and>
          compliance_check_node env s2 w2 = (Inl e, w3) \<longrightarrow>
            process_compliance_check env file_id fp fs w =
              (Inr (), fs(file_id \<mapsto> info\<lparr>fi_status := ''error'', fi_error := Some (str_exn e)\<rparr>), w3))
       \<and> (fi_state info = Some state0 \<and>
          correct_document_node env state0 w = (Inl e, w1) \<longrightarrow>
            process_document_correction env file_id fs w =
              (Inr (), fs(file_id \<mapsto> info\<lparr>fi_status := ''error'', fi_error := Some (str_exn e)\<rparr>), w1))
       \<and> (fi_state info = Some state0 \<and>
          correct_document_node env state0 w = (Inr s1, w1) \<and>
          save_corrected_doc_node env s1 w1 = (Inl e, w2) \<longrightarrow>
            process_document_correction env file_id fs w =
              (Inr (), fs(file_id \<mapsto> info\<lparr>fi_status := ''error'', fi_error := Some (str_exn e)\<rparr>), w2))
       \<and> (check_loop env pre [] w = (Inr rs, w1) \<and>
          llm_ainvoke env (check_prompt c) w1 = (Inl e, w2) \<longrightarrow>
            compliance_check_node env (state\<lparr>chunks := pre @ c # post\<rparr>) w = (Inl e, w2))
       \<and> (correct_loop env pre [] w = (Inr rs, w1) \<and>
          llm_ainvoke env (correct_prompt c) w1 = (Inl e, w2) \<longrightarrow>
            correct_document_node env (state\<lparr>chunks := pre @ c # post\<rparr>) w = (Inl e, w2))"
proof -
  have load: "load_document_node env (new_state fp) w = (Inl e, w1) \<Longrightarrow>
      compliance_workflow env (new_state fp) w = (Inl e, w1)" for e w1
    by (simp add: compliance_workflow_cases)
  have check: "load_document_node env (new_state fp) w = (Inr s1, w1) \<Longrightarrow>
      chunk_text_node env s1 w1 = (Inr s2, w2) \<Longrightarrow>
      compliance_check_node env s2 w2 = (Inl e, w3) \<Longrightarrow>
      compliance_workflow env (new_state fp) w = (Inl e, w3)" for e s1 s2 w1 w2 w3
    by (simp add: compliance_workflow_cases)
  have correct: "correct_document_node env state0 w = (Inl e, w1) \<Longrightarrow>
      correction_workflow env state0 w = (Inl e, w1)" for e w1
    by (simp add: correction_workflow_cases)
  have save: "correct_document_node env state0 w = (Inr s1, w1) \<Longrightarrow>
      save_corrected_doc_node env s1 w1 = (Inl e, w2) \<Longrightarrow>
      correction_workflow env state0 w = (Inl e, w2)" for e s1 w1 w2
    by (simp add: correction_workflow_cases)
  show ?thesis
    using assms load check correct save
    by (auto simp add: process_compliance_check_Inl process_document_correction_Inl
        compliance_check_node_def correct_document_node_def check_loop_abort correct_loop_abort)
qed

theorem stage_failure_is_recorded_witness:
  "process_compliance_check (sample_env [''Hi.''] [] True) ''job1'' ''temp_uploads/job1_a.txt''
     sample_store 0 =
     (Inr (),
      sample_store(''job1'' \<mapsto> (new_file_info ''temp_uploads/job1_a.pdf'' ''a.pdf'')
         \<lparr>fi_status := ''error'', fi_error := Some ''Only PDF and DOCX supported.''\<rparr>), 0)
   \<and> process_compliance_check (sample_env [''Hi.''] [0] True) ''job1'' ''temp_uploads/job1_a.pdf''
     sample_store 0 =
     (Inr (),
      sample_store(''job1'' \<mapsto> (new_file_info ''temp_uploads/job1_a.pdf'' ''a.pdf'')
         \<lparr>fi_status := ''error'', fi_error := Some ''429 quota exceeded''\<rparr>), 1)
   \<and> compliance_check_node (sample_env [''Hi.''] [1] True)
        ((new_state ''temp_uploads/job1_a.pdf'')\<lparr>chunks := [''a'', ''b'', ''c'']\<rparr>) 0 =
     (Inl (Exception ''429 quota exceeded''), 2)
   \<and> process_document_correction (sample_env [''Hi.''] [0] True) ''job1''
        (sample_store(''job1'' \<mapsto> sample_checked_info)) 0 =
     (Inr (),
      (sample_store(''job1'' \<mapsto> sample_checked_info))(''job1'' \<mapsto> sample_checked_info
         \<lparr>fi_status := ''error'', fi_error := Some ''429 quota exceeded''\<rparr>), 1)
   \<and> process_document_correction (sample_env [''Hi.''] [] False) ''job1''
        (sample_store(''job1'' \<mapsto> sample_checked_info)) 0 =
     (Inr (),
      (sample_store(''job1'' \<mapsto> sample_checked_info))(''job1'' \<mapsto> sample_checked_info
         \<lparr>fi_status := ''error'', fi_error := Some ''Permission denied''\<rparr>), 1)"
  using stage_failure_is_recorded
      [where fs = sample_store and file_id = "''job1''"
         and info = "new_file_info ''temp_uploads/job1_a.pdf'' ''a.pdf''"
         and env = "sample_env [''Hi.''] [] True" and fp = "''temp_uploads/job1_a.txt''"
         and w = 0 and e = "ValueError ''Only PDF and DOCX supported.''" and ?w1.0 = 0]
    stage_failure_is_recorded
      [where fs = sample_store and file_id = "''job1''"
         and info = "new_file_info ''temp_uploads/job1_a.pdf'' ''a.pdf''"
         and env = "sample_env [''Hi.''] [0] True" and fp = "''temp_uploads/job1_a.pdf''"
         and w = 0 and e = "Exception ''429 quota exceeded''" and ?w1.0 = 0
         and ?s1.0 = "(new_state ''temp_uploads/job1_a.pdf'')\<lparr>original_text := ''Hi.''\<rparr>"
         and ?w2.0 = 0
         and ?s2.0 = "(new_state ''temp_uploads/job1_a.pdf'')\<lparr>original_text := ''Hi.'', chunks := [''Hi.'']\<rparr>"
         and ?w3.0 = 1]
    stage_failure_is_recorded
      [where fs = sample_store and file_id = "''job1''"
         and info = "new_file_info ''temp_uploads/job1_a.pdf'' ''a.pdf''"
         and env = "sample_env [''Hi.''] [1] True" and w = 0
         and pre = "[''a'']" and c = "''b''" and post = "[''c'']"
         and e = "Exception ''429 quota exceeded''" and ?w1.0 = 1 and ?w2.0 = 2
         and rs = "[sample_answer (check_prompt ''a'')]"
         and state = "new_state ''temp_uploads/job1_a.pdf''"]
    stage_failure_is_recorded
      [where fs = "sample_store(''job1'' \<mapsto> sample_checked_info)" and file_id = "''job1''"
         and info = sample_checked_info
         and env = "sample_env [''Hi.''] [0] True" and w = 0
         and ?state0.0 = sample_checked_state
         and e = "Exception ''429 quota exceeded''" and ?w1.0 = 1]
    stage_failure_is_recorded
      [where fs = "sample_store(''job1'' \<mapsto> sample_checked_info)" and file_id = "''job1''"
         and info = sample_checked_info
         and env = "sample_env [''Hi.''] [] False" and w = 0
         and ?state0.0 = sample_checked_state
         and e = "Exception ''Permission denied''" and ?w1.0 = 1 and ?w2.0 = 1
         and ?s1.0 = "sample_checked_state
            \<lparr>corrected_chunks := [strip (sample_answer (correct_prompt ''Hi.''))],
             final_corrected_doc := strip (sample_answer (correct_prompt ''Hi.''))\<rparr>"]
  by (simp add: sample_load_pdf sample_load_txt sample_chunks sample_llm sample_store_def
      sample_checked_info_def sample_checked_state_def chunk_text_node_def
      compliance_check_node_def correct_document_node_def save_corrected_doc_node_def
      sample_makedirs sample_docx_save)

section \<open>The status query\<close>

text \<open>
  C10. For a job of the store whose \<open>error\<close> field holds a non-empty message,
  \<open>get_status\<close> answers with \<open>"Error: "\<close> followed by that message, whatever the
  status. Neither executor resets the field: a run that succeeds leaves it as it was, a
  run that fails stores the new message, and after either the field holds some message.
  So when the check is run again on such a job and succeeds, the status query reports
  the status \<open>compliance_complete\<close> together with the old error message; likewise
  after a correction that succeeds.
\<close>

theorem stale_error_is_reported:
  assumes "fs file_id = Some info" and "fi_error info = Some msg" and "msg \<noteq> []"
  shows "get_status fs file_id =
           Inr \<lparr>sr_file_id = file_id, sr_status = fi_status info,
                sr_message = Some (''Error: '' @ msg),
                sr_compliance_reports = Some (fi_compliance_reports info)\<rparr>
       \<and> (compliance_workflow env (new_state fp) w = (Inr state, w') \<longrightarrow>
            get_status (fst (snd (process_compliance_check env file_id fp fs w))) file_id =
              Inr \<lparr>sr_file_id = file_id, sr_status = ''compliance_complete'',
                   sr_message = Some (''Error: '' @ msg),
                   sr_compliance_reports = Some (compliance_reports state)\<rparr>)
       \<and> (fi_state info = Some state0 \<and> correction_workflow env state0 w = (Inr state1, w1) \<longrightarrow>
            get_status (fst (snd (process_document_correction env file_id fs w))) file_id =
              Inr \<lparr>sr_file_id = file_id, sr_status = ''correction_complete'',
                   sr_message = Some (''Error: '' @ msg),
                   sr_compliance_reports = Some (fi_compliance_reports info)\<rparr>)
       \<and> (\<exists>info' msg'. fst (snd (process_compliance_check env file_id fp fs w)) file_id = Some info' \<and>
            fi_error info' = Some msg')
       \<and> (\<exists>info' msg'. fst (snd (process_document_correction env file_id fs w)) file_id = Some info' \<and>
            fi_error info' = Some msg')"
proof -
  have status: "get_status fs file_id =
           Inr \<lparr>sr_file_id = file_id, sr_status = fi_status info,
                sr_message = Some (''Error: '' @ msg),
                sr_compliance_reports = Some (fi_compliance_reports info)\<rparr>"
    using assms by (simp add: get_status_def status_message_error)
  have recheck: "get_status (fst (snd (process_compliance_check env file_id fp fs w))) file_id =
              Inr \<lparr>sr_file_id = file_id, sr_status = ''compliance_complete'',
                   sr_message = Some (''Error: '' @ msg),
                   sr_compliance_reports = Some (compliance_reports state)\<rparr>"
    if "compliance_workflow env (new_state fp) w = (Inr state, w')"
    using assms process_compliance_check_Inr [where fs = fs and file_id = file_id and info = info, OF assms(1) that]
    by (simp add: get_status_def status_message_error)
  have recorrect: "get_status (fst (snd (process_document_correction env file_id fs w))) file_id =
              Inr \<lparr>sr_file_id = file_id, sr_status = ''correction_complete'',
                   sr_message = Some (''Error: '' @ msg),
                   sr_compliance_reports = Some (fi_compliance_reports info)\<rparr>"
    if "fi_state info = Some state0" and "correction_workflow env state0 w = (Inr state1, w1)"
    using assms process_document_correction_Inr [where fs = fs and file_id = file_id
        and info = info, OF assms(1) that]
    by (simp add: get_status_def status_message_error)
  have check_keeps: "\<exists>info' msg'.
      fst (snd (process_compliance_check env file_id fp fs w)) file_id = Some info' \<and>
      fi_error info' = Some msg'"
  proof (cases "compliance_workflow env (new_state fp) w")
    case (Pair r w1)
    then show ?thesis
      using assms
        process_compliance_check_Inr [where fs = fs and file_id = file_id and info = info
          and env = env and fp = fp and w = w and w' = w1]
        process_compliance_check_Inl [where fs = fs and file_id = file_id and info = info
          and env = env and fp = fp and w = w and w' = w1]
      by (cases r) auto
  qed
  have correct_keeps: "\<exists>info' msg'.
      fst (snd (process_document_correction env file_id fs w)) file_id = Some info' \<and>
      fi_error info' = Some msg'"
  proof (cases "fi_state info")
    case None
    then show ?thesis
      using assms process_document_correction_None
          [where fs = fs and file_id = file_id and info = info and env = env and w = w]
      by simp
  next
    case (Some state0)
    show ?thesis
    proof (cases "correction_workflow env state0 w")
      case (Pair r w1)
      then show ?thesis
        using assms Some
          process_document_correction_Inr [where fs = fs and file_id = file_id and info = info
            and env = env and w = w and w' = w1 and ?state0.0 = state0]
          process_document_correction_Inl [where fs = fs and file_id = file_id and info = info
            and env = env and w = w and w' = w1 and ?state0.0 = state0]
        by (cases r) auto
    qed
  qed
  from status recheck recorrect check_keeps correct_keeps show ?thesis
    by blast
qed

theorem stale_error_is_reported_witness:
  "check_compliance sample_store [] ''job1'' =
     (Inr \<lparr>cr_file_id = ''job1'', cr_compliance_reports = [],
           cr_message = ''Compliance checking started. Check status for progress.''\<rparr>,
      [Task_compliance_check ''job1'' ''temp_uploads/job1_a.pdf''])
   \<and> check_compliance sample_store [Task_compliance_check ''job1'' ''temp_uploads/job1_a.pdf''] ''job1'' =
     (Inr \<lparr>cr_file_id = ''job1'', cr_compliance_reports = [],
           cr_message = ''Compliance checking started. Check status for progress.''\<rparr>,
      [Task_compliance_check ''job1'' ''temp_uploads/job1_a.pdf'',
       Task_compliance_check ''job1'' ''temp_uploads/job1_a.pdf''])
   \<and> get_status
       (fst (snd (run_task (sample_env [''Hi.''] [0] True)
          (Task_compliance_check ''job1'' ''temp_uploads/job1_a.pdf'')
          (fst (snd (run_task (sample_env [''Hi.''] [0] True)
             (Task_compliance_check ''job1'' ''temp_uploads/job1_a.pdf'') sample_store 0)))
          1)))
       ''job1'' =
     Inr \<lparr>sr_file_id = ''job1'', sr_status = ''compliance_complete'',
          sr_message = Some ''Error: 429 quota exceeded'',
          sr_compliance_reports =
            Some [sample_answer (check_prompt ''Hi.'')]\<rparr>"
proof -
  let ?env = "sample_env [''Hi.''] [0] True"
  let ?fp = "''temp_uploads/job1_a.pdf''"
  let ?info1 = "(new_file_info ?fp ''a.pdf'')
     \<lparr>fi_status := ''error'', fi_error := Some ''429 quota exceeded''\<rparr>"
  let ?fs1 = "sample_store(''job1'' \<mapsto> ?info1)"
  have first: "process_compliance_check ?env ''job1'' ?fp sample_store 0 = (Inr (), ?fs1, 1)"
    using process_compliance_check_Inl [where fs = sample_store and file_id = "''job1''"
        and info = "new_file_info ?fp ''a.pdf''" and env = ?env and fp = ?fp and w = 0
        and e = "Exception ''429 quota exceeded''" and w' = 1] sample_check_fails
    by (simp add: sample_store_def)
  have stored: "?fs1 ''job1'' = Some ?info1"
    by simp
  have failed: "fi_error ?info1 = Some ''429 quota exceeded''"
    by simp
  have nonempty: "''429 quota exceeded'' \<noteq> []"
    by simp
  from stale_error_is_reported [where fs = ?fs1 and file_id = "''job1''" and info = ?info1
      and msg = "''429 quota exceeded''" and env = ?env and fp = ?fp and w = 1,
      OF stored failed nonempty]
    sample_check_succeeds first
  show ?thesis
    by (simp add: check_compliance_def sample_store_def new_file_info_def)
qed

section \<open>Facts about strip, the two loops and the workflows\<close>

lemma isspace_NL: "isspace NL"
  by (simp add: isspace_def NL_def)

lemma rstrip_no_trailing: "rstrip s = [] \<or> \<not> isspace (last (rstrip s))"
proof (cases "dropWhile isspace (rev s)")
  case Nil
  then show ?thesis by (simp add: rstrip_def)
next
  case (Cons c cs)
  then have "\<not> isspace (hd (dropWhile isspace (rev s)))"
    using hd_dropWhile [of isspace "rev s"] by simp
  with Cons show ?thesis
    by (simp add: rstrip_def last_rev)
qed

lemma lstrip_no_leading: "lstrip s = [] \<or> \<not> isspace (hd (lstrip s))"
  using hd_dropWhile [of isspace s] by (auto simp add: lstrip_def)

lemma last_lstrip: "lstrip s \<noteq> [] \<Longrightarrow> last (lstrip s) = last s"
  unfolding lstrip_def
  by (induction s) (auto split: if_splits)

lemma strip_no_whitespace_ends:
  "strip s = [] \<or> (\<not> isspace (hd (strip s)) \<and> \<not> isspace (last (strip s)))"
proof (cases "strip s = []")
  case True
  then show ?thesis by simp
next
  case False
  then have ne: "lstrip (rstrip s) \<noteq> []"
    by (simp add: strip_def)
  then have "rstrip s \<noteq> []"
    by (auto simp add: lstrip_def)
  then have "\<not> isspace (last (rstrip s))"
    using rstrip_no_trailing [of s] by simp
  then have "\<not> isspace (last (strip s))"
    using last_lstrip [OF ne] by (simp add: strip_def)
  moreover have "\<not> isspace (hd (strip s))"
    using lstrip_no_leading [of "rstrip s"] ne by (simp add: strip_def)
  ultimately show ?thesis by simp
qed


lemma correct_loop_Inr:
  "correct_loop env cs corrected w = (Inr out, w') \<Longrightarrow>
   \<exists>new. out = corrected @ new \<and> length new = length cs \<and>
     (\<forall>i<length cs. \<exists>wi wi' content.
        llm_ainvoke env (correct_prompt (cs ! i)) wi = (Inr content, wi') \<and>
        new ! i = strip content)"
proof (induction cs arbitrary: corrected w)
  case Nil
  then show ?case by simp
next
  case (Cons c cs)
  from Cons.prems obtain content w1 where
    call: "llm_ainvoke env (correct_prompt c) w = (Inr content, w1)" and
    rest: "correct_loop env cs (corrected @ [strip content]) w1 = (Inr out, w')"
    by (auto split: prod.splits sum.splits)
  from Cons.IH [OF rest] obtain new where
    new: "out = (corrected @ [strip content]) @ new" "length new = length cs"
      "\<forall>i<length cs. \<exists>wi wi' content.
         llm_ainvoke env (correct_prompt (cs ! i)) wi = (Inr content, wi') \<and> new ! i = strip content"
    by blast
  have "\<forall>i<length (c # cs). \<exists>wi wi' content'.
      llm_ainvoke env (correct_prompt ((c # cs) ! i)) wi = (Inr content', wi') \<and>
      (strip content # new) ! i = strip content'"
  proof (intro allI impI)
    fix i assume "i < length (c # cs)"
    then show "\<exists>wi wi' content'.
      llm_ainvoke env (correct_prompt ((c # cs) ! i)) wi = (Inr content', wi') \<and>
      (strip content # new) ! i = strip content'"
      using call new(3) by (cases i) auto
  qed
  with new(1,2) show ?case
    by (intro exI [of _ "strip content # new"]) simp
qed


lemma correct_document_node_Inr:
  assumes "correct_document_node env state w = (Inr s, w')"
  shows "\<exists>corrected. s = state\<lparr>corrected_chunks := corrected,
                                 final_corrected_doc := join PARA_SEP corrected\<rparr> \<and>
           length corrected = length (chunks state) \<and>
           (\<forall>i<length (chunks state). \<exists>wi wi' content.
              llm_ainvoke env (correct_prompt (chunks state ! i)) wi = (Inr content, wi') \<and>
              corrected ! i = strip content)"
proof -
  from assms obtain corrected where
    loop: "correct_loop env (chunks state) [] w = (Inr corrected, w')" and
    s: "s = state\<lparr>corrected_chunks := corrected, final_corrected_doc := join PARA_SEP corrected\<rparr>"
    by (auto simp add: correct_document_node_def split: prod.splits sum.splits)
  from correct_loop_Inr [OF loop] s show ?thesis
    by auto
qed

lemma save_corrected_doc_node_Inr:
  assumes "save_corrected_doc_node env state w = (Inr s, w')"
  shows "\<exists>out. s = state\<lparr>output_path := out\<rparr>"
  using assms
  by (auto simp add: save_corrected_doc_node_def Let_def split: prod.splits sum.splits)

lemma correction_workflow_Inr:
  assumes "correction_workflow env state w = (Inr s, w')"
  shows "chunks s = chunks state"
    and "compliance_reports s = compliance_reports state"
    and "original_text s = original_text state"
    and "length (corrected_chunks s) = length (chunks state)"
    and "\<forall>i<length (chunks state). \<exists>wi wi' content.
           llm_ainvoke env (correct_prompt (chunks state ! i)) wi = (Inr content, wi') \<and>
           corrected_chunks s ! i = strip content"
    and "final_corrected_doc s = join PARA_SEP (corrected_chunks s)"
proof -
  from assms obtain s1 w1 where
    correct: "correct_document_node env state w = (Inr s1, w1)" and
    save: "save_corrected_doc_node env s1 w1 = (Inr s, w')"
    by (auto simp add: correction_workflow_cases split: prod.splits sum.splits)
  from correct_document_node_Inr [OF correct] save_corrected_doc_node_Inr [OF save]
  show "chunks s = chunks state"
    and "compliance_reports s = compliance_reports state"
    and "original_text s = original_text state"
    and "length (corrected_chunks s) = length (chunks state)"
    and "\<forall>i<length (chunks state). \<exists>wi wi' content.
           llm_ainvoke env (correct_prompt (chunks state ! i)) wi = (Inr content, wi') \<and>
           corrected_chunks s ! i = strip content"
    and "final_corrected_doc s = join PARA_SEP (corrected_chunks s)"
    by auto
qed


lemma correction_status_complete:
  assumes "fs file_id = Some info"
    and "process_document_correction env file_id fs w = (r, fs', w')"
    and "fs' file_id = Some info'"
    and "fi_status info' = ''correction_complete''"
  shows "\<exists>state0 s. fi_state info = Some state0 \<and>
           correction_workflow env state0 w = (Inr s, w') \<and>
           info' = info\<lparr>fi_corrected_chunks := corrected_chunks s,
                         fi_final_corrected_doc := final_corrected_doc s,
                         fi_output_path := output_path s,
                         fi_state := Some s,
                         fi_status := ''correction_complete''\<rparr>"
proof (cases "fi_state info")
  case None
  with assms show ?thesis
    using process_document_correction_None
      [where fs = fs and file_id = file_id and info = info and env = env and w = w]
    by auto
next
  case (Some state0)
  show ?thesis
  proof (cases "correction_workflow env state0 w")
    case (Pair res w1)
    show ?thesis
    proof (cases res)
      case (Inl e)
      with assms Some Pair show ?thesis
        using process_document_correction_Inl
          [where fs = fs and file_id = file_id and info = info and env = env and w = w
             and ?state0.0 = state0 and e = e and w' = w1]
        by auto
    next
      case (Inr s)
      with assms Some Pair show ?thesis
        using process_document_correction_Inr
          [where fs = fs and file_id = file_id and info = info and env = env and w = w
             and ?state0.0 = state0 and state = s and w' = w1]
        by auto
    qed
  qed
qed


lemma sample_output_path:
  "path_join ''output''
     (''corrected_'' @ hd (split (basename ''temp_uploads/job1_a.pdf'') ''.'') @ ''.docx'') =
   ''output/corrected_job1_a.docx''"
  by (simp add: basename_def split_def split_from_Nil split_from_Cons startswith_def
      path_join_def endswith_def)

section \<open>Facts about the chunker\<close>

lemma paragraph_chunk_split_flush:
  "paragraph_chunk_split text chunk_size =
     final_flush (chunk_loop chunk_size (split text PARA_SEP) [] [])"
  by (simp add: paragraph_chunk_split_def final_flush_def Let_def split: prod.splits)

lemma length_strip_le: "length (strip s) \<le> length s"
proof -
  have "length (lstrip (rstrip s)) \<le> length (rstrip s)"
    by (simp add: lstrip_def length_dropWhile_le)
  also have "\<dots> \<le> length s"
    using length_dropWhile_le [of isspace "rev s"] by (simp add: rstrip_def)
  finally show ?thesis
    by (simp add: strip_def)
qed

lemma rstrip_append_sep: "rstrip (s @ PARA_SEP) = rstrip s"
  using isspace_NL by (simp add: rstrip_def PARA_SEP_def)

lemma rstrip_id: "s = [] \<or> \<not> isspace (last s) \<Longrightarrow> rstrip s = s"
  by (cases s rule: rev_cases) (auto simp add: rstrip_def)

lemma lstrip_id: "s = [] \<or> \<not> isspace (hd s) \<Longrightarrow> lstrip s = s"
  by (cases s) (auto simp add: lstrip_def)

lemma strip_id: "s = [] \<or> (\<not> isspace (hd s) \<and> \<not> isspace (last s)) \<Longrightarrow> strip s = s"
  by (auto simp add: strip_def rstrip_id lstrip_id)

lemma strip_strip: "strip (strip s) = strip s"
  using strip_no_whitespace_ends [of s] by (rule strip_id)

lemma strip_strip_sep: "strip (strip p @ PARA_SEP) = strip p"
proof -
  have "strip (strip p @ PARA_SEP) = lstrip (rstrip (strip p))"
    by (simp add: strip_def [of "strip p @ PARA_SEP"] rstrip_append_sep)
  also have "\<dots> = strip (strip p)"
    by (simp add: strip_def [of "strip p"])
  finally show ?thesis
    by (simp add: strip_strip)
qed

lemma PARA_SEP_nonempty: "PARA_SEP \<noteq> []" and length_PARA_SEP: "length PARA_SEP = 2"
  by (simp_all add: PARA_SEP_def)

lemma chunk_loop_mono:
  "set cs \<subseteq> set (fst (chunk_loop n ps cs cur))"
proof (induction ps arbitrary: cs cur)
  case Nil
  then show ?case by simp
next
  case (Cons p ps)
  let ?pwn = "strip p @ PARA_SEP"
  show ?case
  proof (cases "int (length cur) + int (length ?pwn) > n")
    case True
    have "set cs \<subseteq> set (if cur \<noteq> [] then cs @ [strip cur] else cs)"
      by auto
    also have "\<dots> \<subseteq> set (fst (chunk_loop n ps (if cur \<noteq> [] then cs @ [strip cur] else cs) ?pwn))"
      by (rule Cons.IH)
    finally show ?thesis
      using True by (simp add: Let_def)
  next
    case False
    with Cons.IH [of cs "cur @ ?pwn"] show ?thesis
      by (simp add: Let_def)
  qed
qed

lemma final_flush_mono: "set (fst r) \<subseteq> set (final_flush r)"
  by (auto simp add: final_flush_def)

lemma chunk_loop_flush_mono:
  "set cs \<subseteq> set (final_flush (chunk_loop n ps cs cur))"
  using chunk_loop_mono [of cs n ps cur] final_flush_mono [of "chunk_loop n ps cs cur"]
  by blast

text \<open>The invariant of the loop for the size bound.\<close>

lemma chunk_loop_bound:
  assumes "\<forall>c\<in>set cs. Q c"
    and "cur = [] \<or> Q (strip cur)"
    and "\<And>s. int (length s) \<le> n \<Longrightarrow> Q s"
    and "\<And>p. p \<in> set ps \<Longrightarrow> Q (strip p)"
  shows "\<forall>c\<in>set (final_flush (chunk_loop n ps cs cur)). Q c"
  using assms
proof (induction ps arbitrary: cs cur)
  case Nil
  then show ?case
    by (auto simp add: final_flush_def)
next
  case (Cons p ps)
  let ?pwn = "strip p @ PARA_SEP"
  show ?case
  proof (cases "int (length cur) + int (length ?pwn) > n")
    case True
    let ?cs1 = "if cur \<noteq> [] then cs @ [strip cur] else cs"
    have 1: "\<forall>c\<in>set ?cs1. Q c"
      using Cons.prems(1,2) by auto
    have 2: "?pwn = [] \<or> Q (strip ?pwn)"
      using Cons.prems(4) [of p] by (simp add: strip_strip_sep)
    have "\<forall>c\<in>set (final_flush (chunk_loop n ps ?cs1 ?pwn)). Q c"
      using Cons.IH [OF 1 2 Cons.prems(3)] Cons.prems(4) by simp
    with True show ?thesis
      by (simp add: Let_def)
  next
    case False
    then have "int (length (cur @ ?pwn)) \<le> n"
      by simp
    moreover have "length (strip (cur @ ?pwn)) \<le> length (cur @ ?pwn)"
      by (rule length_strip_le)
    ultimately have "int (length (strip (cur @ ?pwn))) \<le> n"
      by linarith
    then have 2: "cur @ ?pwn = [] \<or> Q (strip (cur @ ?pwn))"
      using Cons.prems(3) by blast
    have "\<forall>c\<in>set (final_flush (chunk_loop n ps cs (cur @ ?pwn))). Q c"
      using Cons.IH [OF Cons.prems(1) 2 Cons.prems(3)] Cons.prems(4) by simp
    with False show ?thesis
      by (simp add: Let_def)
  qed
qed

text \<open>A buffer that holds one oversized paragraph is flushed as that paragraph.\<close>

lemma chunk_loop_oversized_buffer:
  assumes "n < int (length (strip p))"
  shows "strip p \<in> set (final_flush (chunk_loop n ps cs (strip p @ PARA_SEP)))"
proof (cases ps)
  case Nil
  then show ?thesis
    by (simp add: final_flush_def strip_strip_sep PARA_SEP_nonempty)
next
  case (Cons q qs)
  have "strip p \<in> set (cs @ [strip (strip p @ PARA_SEP)])"
    by (simp add: strip_strip_sep)
  then have "strip p \<in> set (final_flush (chunk_loop n qs (cs @ [strip (strip p @ PARA_SEP)])
      (strip q @ PARA_SEP)))"
    using chunk_loop_flush_mono by blast
  moreover have "n < int (length (strip p @ PARA_SEP)) + int (length (strip q @ PARA_SEP))"
    using assms by simp
  ultimately show ?thesis
    using Cons by (simp add: Let_def PARA_SEP_nonempty)
qed

lemma chunk_loop_oversized:
  assumes "p \<in> set ps" and "n < int (length (strip p))"
  shows "strip p \<in> set (final_flush (chunk_loop n ps cs cur))"
  using assms(1)
proof (induction ps arbitrary: cs cur)
  case Nil
  then show ?case by simp
next
  case (Cons q qs)
  show ?case
  proof (cases "q = p")
    case True
    have "int (length cur) + int (length (strip p @ PARA_SEP)) > n"
      using assms(2) by simp
    with True show ?thesis
      using chunk_loop_oversized_buffer [OF assms(2)] by (simp add: Let_def)
  next
    case False
    with Cons.prems have "p \<in> set qs"
      by simp
    from Cons.IH [OF this] show ?thesis
      by (simp add: Let_def)
  qed
qed

lemma sample_split: "split sample_text PARA_SEP = [''abcdefgh'', ''x'', ''y'']"
  by (simp add: sample_text_def split_def split_from_Nil split_from_Cons startswith_def
      PARA_SEP_def NL_def)

lemma sample_strips:
  "strip ''abcdefgh'' = ''abcdefgh''" "strip ''x'' = ''x''" "strip ''y'' = ''y''"
  by (simp_all add: strip_def lstrip_def rstrip_def isspace_def)

lemma sample_strip_buffer:
  "strip (''x'' @ PARA_SEP @ ''y'' @ PARA_SEP) = ''x'' @ PARA_SEP @ ''y''"
  by (simp add: strip_def lstrip_def rstrip_def isspace_def PARA_SEP_def NL_def)

lemma sample_oversized_chunks:
  "paragraph_chunk_split sample_text 7 = [''abcdefgh'', ''x'' @ PARA_SEP @ ''y'']"
proof -
  have "chunk_loop 7 [''abcdefgh'', ''x'', ''y''] [] [] =
      ([''abcdefgh''], ''x'' @ PARA_SEP @ ''y'' @ PARA_SEP)"
    by (simp add: strip_def lstrip_def rstrip_def isspace_def PARA_SEP_def NL_def)
  then show ?thesis
    using sample_strip_buffer
    by (simp add: paragraph_chunk_split_flush final_flush_def sample_split PARA_SEP_nonempty)
qed

section \<open>The size of a chunk\<close>

text \<open>
  C2. For every text and every \<open>chunk_size\<close>, each chunk that \<open>paragraph_chunk_split\<close>
  returns has at most \<open>chunk_size\<close> characters, or it is one paragraph of the text,
  stripped, and that stripped paragraph is itself longer than \<open>chunk_size\<close>. Every
  paragraph whose stripped text is longer than \<open>chunk_size\<close> is returned whole, as a
  chunk of its own.
\<close>

theorem chunks_within_size_or_single_paragraph:
  "(\<forall>c\<in>set (paragraph_chunk_split text chunk_size).
      int (length c) \<le> chunk_size \<or>
      (\<exists>para\<in>set (split text PARA_SEP). c = strip para \<and> chunk_size < int (length (strip para))))
   \<and> (\<forall>para\<in>set (split text PARA_SEP).
      chunk_size < int (length (strip para)) \<longrightarrow>
      strip para \<in> set (paragraph_chunk_split text chunk_size))"
proof -
  let ?ps = "split text PARA_SEP"
  let ?Q = "\<lambda>c. int (length c) \<le> chunk_size \<or>
      (\<exists>para\<in>set ?ps. c = strip para \<and> chunk_size < int (length (strip para)))"
  have "\<forall>c\<in>set (final_flush (chunk_loop chunk_size ?ps [] [])). ?Q c"
  proof (rule chunk_loop_bound)
    show "\<forall>c\<in>set []. ?Q c" by simp
    show "[] = [] \<or> ?Q (strip [])" by simp
    show "\<And>s. int (length s) \<le> chunk_size \<Longrightarrow> ?Q s" by simp
    show "\<And>p. p \<in> set ?ps \<Longrightarrow> ?Q (strip p)" by force
  qed
  then show ?thesis
    by (auto simp add: paragraph_chunk_split_flush chunk_loop_oversized)
qed

theorem chunks_within_size_or_single_paragraph_witness:
  "paragraph_chunk_split sample_text 7 = [''abcdefgh'', ''x'' @ PARA_SEP @ ''y'']
   \<and> split sample_text PARA_SEP = [''abcdefgh'', ''x'', ''y'']
   \<and> (7::int) < int (length (strip ''abcdefgh''))
   \<and> strip ''abcdefgh'' \<in> set (paragraph_chunk_split sample_text 7)
   \<and> int (length (''x'' @ PARA_SEP @ ''y'')) \<le> 7"
  using chunks_within_size_or_single_paragraph [of sample_text 7]
  by (simp add: sample_oversized_chunks sample_split sample_strips length_PARA_SEP)

section \<open>Splitting on the paragraph delimiter\<close>

lemma split_sep_Nil: "split_from PARA_SEP acc [] = [acc]"
  by (rule split_from_Nil)

lemma split_sep_one: "split_from PARA_SEP acc [a] = [acc @ [a]]"
  by (simp add: split_from_Cons split_from_Nil startswith_def PARA_SEP_def)

lemma split_sep_two:
  "split_from PARA_SEP acc (a # b # cs) =
     (if a = NL \<and> b = NL then acc # split_from PARA_SEP [] cs
      else split_from PARA_SEP (acc @ [a]) (b # cs))"
  by (subst split_from_Cons) (auto simp add: startswith_def PARA_SEP_def)

lemma sep_append: "PARA_SEP @ rest = NL # NL # rest"
  by (simp add: PARA_SEP_def)

lemma split_sep_two_sep:
  "split_from PARA_SEP acc (NL # NL # cs) = acc # split_from PARA_SEP [] cs"
  by (simp add: split_sep_two)

lemma split_sep_two_other:
  "\<not> (a = NL \<and> b = NL) \<Longrightarrow>
   split_from PARA_SEP acc (a # b # cs) = split_from PARA_SEP (acc @ [a]) (b # cs)"
  by (auto simp add: split_sep_two)

lemma split_sep_acc:
  "split_from PARA_SEP (acc @ acc') s =
     (case split_from PARA_SEP acc' s of [] \<Rightarrow> [] | p # ps \<Rightarrow> (acc @ p) # ps)"
  by (induction s arbitrary: acc' rule: induct_list012)
    (simp_all add: split_sep_Nil split_sep_one split_sep_two)

lemma split_sep_nonempty: "split_from PARA_SEP acc s \<noteq> []"
  by (induction s arbitrary: acc rule: induct_list012)
    (simp_all add: split_sep_Nil split_sep_one split_sep_two)

lemma split_sep_Cons_acc:
  "split_from PARA_SEP [c] s =
     (c # hd (split_from PARA_SEP [] s)) # tl (split_from PARA_SEP [] s)"
  using split_sep_acc [of "[c]" "[]" s] split_sep_nonempty [of "[]" s]
  by (cases "split_from PARA_SEP [] s") simp_all

lemma has_sep_Cons: "has_sep s \<Longrightarrow> has_sep (a # s)"
  by (cases s) simp_all

lemma has_sep_snoc:
  "has_sep (s @ [c]) \<longleftrightarrow> has_sep s \<or> (s \<noteq> [] \<and> last s = NL \<and> c = NL)"
  by (induction s rule: induct_list012) auto

lemma has_sep_append_left: "has_sep s \<Longrightarrow> has_sep (s @ t)"
  by (induction t rule: rev_induct) (simp_all add: has_sep_snoc flip: append_assoc)

lemma has_sep_append_right: "has_sep t \<Longrightarrow> has_sep (s @ t)"
  by (induction s) (simp_all add: has_sep_Cons)

lemma has_sep_lstrip: "has_sep (lstrip s) \<Longrightarrow> has_sep s"
  using has_sep_append_right [of "dropWhile isspace s" "takeWhile isspace s"]
  by (simp add: lstrip_def)

lemma has_sep_rstrip: "has_sep (rstrip s) \<Longrightarrow> has_sep s"
proof -
  have "s = rstrip s @ rev (takeWhile isspace (rev s))"
    unfolding rstrip_def
    by (metis rev_append rev_rev_ident takeWhile_dropWhile_id)
  then show "has_sep (rstrip s) \<Longrightarrow> has_sep s"
    using has_sep_append_left [of "rstrip s" "rev (takeWhile isspace (rev s))"] by simp
qed

lemma has_sep_strip: "has_sep (strip s) \<Longrightarrow> has_sep s"
  by (auto simp add: strip_def dest: has_sep_lstrip has_sep_rstrip)

text \<open>No piece of a split holds the delimiter.\<close>

lemma split_sep_pieces:
  assumes "\<not> has_sep acc"
    and "acc \<noteq> [] \<and> last acc = NL \<longrightarrow> s = [] \<or> hd s \<noteq> NL"
  shows "\<forall>p\<in>set (split_from PARA_SEP acc s). \<not> has_sep p"
  using assms
proof (induction s arbitrary: acc rule: induct_list012)
  case 1
  then show ?case by (simp add: split_sep_Nil)
next
  case (2 a)
  then show ?case by (auto simp add: split_sep_one has_sep_snoc)
next
  case (3 a b cs)
  show ?case
  proof (cases "a = NL \<and> b = NL")
    case True
    have "\<forall>p\<in>set (split_from PARA_SEP [] cs). \<not> has_sep p"
      by (rule "3.IH"(1)) simp_all
    with True "3.prems"(1) show ?thesis
      by (simp add: split_sep_two_sep)
  next
    case False
    have "\<forall>p\<in>set (split_from PARA_SEP (acc @ [a]) (b # cs)). \<not> has_sep p"
    proof (rule "3.IH"(2))
      show "\<not> has_sep (acc @ [a])"
        using "3.prems" by (auto simp add: has_sep_snoc)
      show "acc @ [a] \<noteq> [] \<and> last (acc @ [a]) = NL \<longrightarrow> b # cs = [] \<or> hd (b # cs) \<noteq> NL"
        using False by auto
    qed
    then show ?thesis
      by (simp add: split_sep_two_other [OF False])
  qed
qed

lemma split_pieces_no_sep: "p \<in> set (split s PARA_SEP) \<Longrightarrow> \<not> has_sep (strip p)"
  using split_sep_pieces [of "[]" s] has_sep_strip [of p]
  by (auto simp add: split_def)

text \<open>A piece without the delimiter that does not end in a newline is split off whole.\<close>

lemma split_sep_clean:
  assumes "\<not> has_sep q" and "q = [] \<or> last q \<noteq> NL"
  shows "split_from PARA_SEP acc (q @ PARA_SEP @ rest) = (acc @ q) # split_from PARA_SEP [] rest"
  using assms
proof (induction q arbitrary: acc rule: induct_list012)
  case 1
  then show ?case
    by (simp add: sep_append split_sep_two_sep)
next
  case (2 a)
  then show ?case
    by (simp add: sep_append split_sep_two_sep split_sep_two_other)
next
  case (3 a b cs)
  from "3.prems" have no: "\<not> (a = NL \<and> b = NL)" and "\<not> has_sep (b # cs)"
    and "b # cs = [] \<or> last (b # cs) \<noteq> NL"
    by auto
  with "3.IH"(2) [of "acc @ [a]"] show ?case
    by (simp add: split_sep_two_other [OF no])
qed

text \<open>A delimiter after a string that does not end in a newline separates the two splits.\<close>

lemma split_sep_append:
  assumes "c = [] \<or> last c \<noteq> NL"
  shows "split_from PARA_SEP acc (c @ PARA_SEP @ rest) =
           split_from PARA_SEP acc c @ split_from PARA_SEP [] rest"
  using assms
proof (induction c arbitrary: acc rule: induct_list012)
  case 1
  then show ?case
    by (simp add: sep_append split_sep_two_sep split_sep_Nil)
next
  case (2 a)
  then show ?case
    by (simp add: sep_append split_sep_two_sep split_sep_two_other split_sep_one)
next
  case (3 a b cs)
  show ?case
  proof (cases "a = NL \<and> b = NL")
    case True
    with "3.prems" have "cs = [] \<or> last cs \<noteq> NL"
      by (cases cs) auto
    with True "3.IH"(1) [of "[]"] show ?thesis
      by (simp add: split_sep_two_sep)
  next
    case False
    from "3.prems" have "b # cs = [] \<or> last (b # cs) \<noteq> NL"
      by auto
    with "3.IH"(2) [of "acc @ [a]"] show ?thesis
      by (simp add: split_sep_two_other [OF False])
  qed
qed

section \<open>Stripping and the paragraph content\<close>

lemma strip_Nil: "strip [] = []"
  by (simp add: strip_def lstrip_def rstrip_def)

lemma strip_snoc_space: "isspace c \<Longrightarrow> strip (s @ [c]) = strip s"
  by (simp add: strip_def rstrip_def)

lemma strip_Cons_space:
  assumes "isspace c"
  shows "strip (c # s) = strip s"
proof (cases "\<forall>x\<in>set s. isspace x")
  case True
  then have "rstrip (c # s) = []" and "rstrip s = []"
    using assms by (simp_all add: rstrip_def dropWhile_append)
  then show ?thesis
    by (simp add: strip_def)
next
  case False
  then have "rstrip (c # s) = c # rstrip s"
    by (auto simp add: rstrip_def dropWhile_append)
  with assms show ?thesis
    by (simp add: strip_def lstrip_def)
qed

lemma piece_content_append: "piece_content (xs @ ys) = piece_content xs @ piece_content ys"
  by (simp add: piece_content_def)

lemma piece_content_Cons_Nil: "piece_content ([] # ps) = piece_content ps"
  by (simp add: piece_content_def strip_Nil)

lemma piece_content_Cons:
  "piece_content (p # ps) = (if strip p = [] then [] else [strip p]) @ piece_content ps"
  by (simp add: piece_content_def)

lemma piece_content_map_strip: "piece_content (map strip ps) = piece_content ps"
  by (simp add: piece_content_def strip_strip comp_def)

lemma paragraph_content_Nil: "paragraph_content [] = []"
  by (simp add: paragraph_content_def split_def split_sep_Nil piece_content_def strip_Nil)

text \<open>A whitespace character in front of a text does not change its paragraph content.\<close>

lemma content_Cons_space:
  "isspace c \<Longrightarrow>
   piece_content (split_from PARA_SEP [] (c # s)) = piece_content (split_from PARA_SEP [] s)"
proof (induction s arbitrary: c)
  case Nil
  then show ?case
    by (simp add: split_sep_one split_sep_Nil piece_content_def strip_Nil
        strip_snoc_space [of c "[]", simplified])
next
  case (Cons b cs)
  show ?case
  proof (cases "c = NL \<and> b = NL")
    case True
    then have "piece_content (split_from PARA_SEP [] (c # b # cs)) =
        piece_content (split_from PARA_SEP [] cs)"
      by (simp add: split_sep_two_sep piece_content_Cons_Nil)
    also have "\<dots> = piece_content (split_from PARA_SEP [] (NL # cs))"
      using Cons.IH [OF isspace_NL] by simp
    finally show ?thesis
      using True by simp
  next
    case False
    have "split_from PARA_SEP [] (c # b # cs) = split_from PARA_SEP [c] (b # cs)"
      using split_sep_two_other [OF False, of "[]" cs] by simp
    also have "\<dots> = (c # hd (split_from PARA_SEP [] (b # cs))) # tl (split_from PARA_SEP [] (b # cs))"
      by (rule split_sep_Cons_acc)
    finally have "piece_content (split_from PARA_SEP [] (c # b # cs)) =
        piece_content (hd (split_from PARA_SEP [] (b # cs)) # tl (split_from PARA_SEP [] (b # cs)))"
      using Cons.prems by (simp add: piece_content_Cons strip_Cons_space)
    then show ?thesis
      using split_sep_nonempty [of "[]" "b # cs"] by simp
  qed
qed

lemma content_lstrip:
  "piece_content (split_from PARA_SEP [] (lstrip s)) = piece_content (split_from PARA_SEP [] s)"
  by (induction s) (simp_all add: lstrip_def content_Cons_space)

text \<open>Nor does a whitespace character at its end.\<close>

lemma content_snoc_space:
  "isspace c \<Longrightarrow>
   piece_content (split_from PARA_SEP acc (s @ [c])) = piece_content (split_from PARA_SEP acc s)"
proof (induction s arbitrary: acc rule: induct_list012)
  case 1
  then show ?case
    by (simp add: split_sep_one split_sep_Nil piece_content_def strip_snoc_space)
next
  case (2 a)
  show ?case
  proof (cases "a = NL \<and> c = NL")
    case True
    then show ?thesis
      using strip_snoc_space [OF isspace_NL, of acc]
      by (simp add: split_sep_two_sep split_sep_one split_sep_Nil piece_content_def strip_Nil)
  next
    case False
    then show ?thesis
      using "2.prems" strip_snoc_space [of c "acc @ [a]"]
      by (simp add: split_sep_two_other split_sep_one piece_content_def)
  qed
next
  case (3 a b cs)
  show ?case
  proof (cases "a = NL \<and> b = NL")
    case True
    then show ?thesis
      using "3.IH"(1) [OF "3.prems", of "[]"]
      by (simp add: split_sep_two_sep piece_content_Cons)
  next
    case False
    then show ?thesis
      using "3.IH"(2) [OF "3.prems", of "acc @ [a]"]
      by (simp add: split_sep_two_other)
  qed
qed

lemma rstrip_snoc: "rstrip (s @ [c]) = (if isspace c then rstrip s else s @ [c])"
  by (simp add: rstrip_def)

lemma rstrip_Nil: "rstrip [] = []"
  by (simp add: rstrip_def)

lemma content_rstrip:
  "piece_content (split_from PARA_SEP [] (rstrip s)) = piece_content (split_from PARA_SEP [] s)"
  by (induction s rule: rev_induct) (simp_all add: rstrip_Nil rstrip_snoc content_snoc_space)

lemma paragraph_content_strip: "paragraph_content (strip s) = paragraph_content s"
  by (simp add: paragraph_content_def split_def strip_def content_lstrip content_rstrip)

section \<open>The chunks and the paragraph content\<close>

text \<open>The buffer of the loop: the stripped paragraphs of a group, each with its delimiter.\<close>

lemma split_buffer:
  assumes "\<forall>p\<in>set g. \<not> has_sep (strip p)"
  shows "split_from PARA_SEP [] (concat (map (\<lambda>p. strip p @ PARA_SEP) g) @ rest) =
           map strip g @ split_from PARA_SEP [] rest"
  using assms
proof (induction g)
  case Nil
  then show ?case by simp
next
  case (Cons p g)
  have "strip p = [] \<or> last (strip p) \<noteq> NL"
    using strip_no_whitespace_ends [of p] isspace_NL by auto
  with Cons.prems have "split_from PARA_SEP []
      (strip p @ PARA_SEP @ concat (map (\<lambda>p. strip p @ PARA_SEP) g) @ rest) =
      ([] @ strip p) # split_from PARA_SEP [] (concat (map (\<lambda>p. strip p @ PARA_SEP) g) @ rest)"
    by (intro split_sep_clean) simp_all
  with Cons show ?case
    by simp
qed

lemma content_buffer:
  assumes "\<forall>p\<in>set g. \<not> has_sep (strip p)"
  shows "paragraph_content (strip (concat (map (\<lambda>p. strip p @ PARA_SEP) g))) = piece_content g"
proof -
  have "paragraph_content (concat (map (\<lambda>p. strip p @ PARA_SEP) g)) =
      piece_content (map strip g @ [[]])"
    using split_buffer [OF assms, of "[]"]
    by (simp add: paragraph_content_def split_def split_sep_Nil)
  then show ?thesis
    by (simp add: paragraph_content_strip piece_content_append piece_content_map_strip
        piece_content_Cons_Nil piece_content_def [of "[]"])
qed

lemma content_flush:
  assumes "\<forall>p\<in>set g. \<not> has_sep (strip p)"
    and "cur = concat (map (\<lambda>p. strip p @ PARA_SEP) g)"
  shows "concat (map paragraph_content (if cur \<noteq> [] then cs @ [strip cur] else cs)) =
           concat (map paragraph_content cs) @ piece_content g"
proof (cases "cur = []")
  case True
  with assms(2) have "g = []"
    by (cases g) (simp_all add: PARA_SEP_nonempty)
  with True show ?thesis
    by (simp add: piece_content_def)
next
  case False
  with content_buffer [OF assms(1)] assms(2) show ?thesis
    by simp
qed

text \<open>The invariant of the loop for the paragraph content.\<close>

lemma chunk_loop_content:
  assumes "\<forall>p\<in>set g \<union> set ps. \<not> has_sep (strip p)"
    and "cur = concat (map (\<lambda>p. strip p @ PARA_SEP) g)"
  shows "concat (map paragraph_content (final_flush (chunk_loop n ps cs cur))) =
           concat (map paragraph_content cs) @ piece_content g @ piece_content ps"
  using assms
proof (induction ps arbitrary: cs cur g)
  case Nil
  from Nil.prems(1) have g: "\<forall>q\<in>set g. \<not> has_sep (strip q)"
    by simp
  have "final_flush (chunk_loop n [] cs cur) = (if cur \<noteq> [] then cs @ [strip cur] else cs)"
    by (simp add: final_flush_def)
  then have "concat (map paragraph_content (final_flush (chunk_loop n [] cs cur))) =
      concat (map paragraph_content cs) @ piece_content g"
    using content_flush [OF g Nil.prems(2), of cs] by (simp only:)
  then show ?case
    by (simp add: piece_content_def [of "[]"])
next
  case (Cons p ps)
  let ?pwn = "strip p @ PARA_SEP"
  from Cons.prems(1) have g: "\<forall>q\<in>set g. \<not> has_sep (strip q)"
    by simp
  show ?case
  proof (cases "int (length cur) + int (length ?pwn) > n")
    case True
    let ?cs = "if cur \<noteq> [] then cs @ [strip cur] else cs"
    have "concat (map paragraph_content (final_flush (chunk_loop n ps ?cs ?pwn))) =
        concat (map paragraph_content ?cs) @ piece_content [p] @ piece_content ps"
      using Cons.prems(1) by (intro Cons.IH) simp_all
    also have "concat (map paragraph_content ?cs) =
        concat (map paragraph_content cs) @ piece_content g"
      using g Cons.prems(2) by (rule content_flush)
    finally show ?thesis
      using True by (simp add: Let_def piece_content_def)
  next
    case False
    have "concat (map paragraph_content (final_flush (chunk_loop n ps cs (cur @ ?pwn)))) =
        concat (map paragraph_content cs) @ piece_content (g @ [p]) @ piece_content ps"
      using Cons.prems by (intro Cons.IH) simp_all
    then show ?thesis
      using False by (simp add: Let_def piece_content_def)
  qed
qed

lemma strip_no_trailing_NL: "strip s = [] \<or> last (strip s) \<noteq> NL"
  using strip_no_whitespace_ends [of s] isspace_NL by auto

lemma chunk_loop_stripped:
  assumes "\<forall>c\<in>set cs. c = [] \<or> last c \<noteq> NL"
  shows "\<forall>c\<in>set (final_flush (chunk_loop n ps cs cur)). c = [] \<or> last c \<noteq> NL"
  using assms
proof (induction ps arbitrary: cs cur)
  case Nil
  then show ?case
    using strip_no_trailing_NL [of cur] by (auto simp add: final_flush_def)
next
  case (Cons p ps)
  let ?pwn = "strip p @ PARA_SEP"
  show ?case
  proof (cases "int (length cur) + int (length ?pwn) > n")
    case True
    have "\<forall>c\<in>set (if cur \<noteq> [] then cs @ [strip cur] else cs). c = [] \<or> last c \<noteq> NL"
      using Cons.prems strip_no_trailing_NL [of cur] by auto
    from Cons.IH [OF this] True show ?thesis
      by (simp add: Let_def)
  next
    case False
    from Cons.IH [OF Cons.prems] False show ?thesis
      by (simp add: Let_def)
  qed
qed

text \<open>Joining chunks that do not end in a newline concatenates their paragraph contents.\<close>

lemma content_append_sep:
  assumes "c = [] \<or> last c \<noteq> NL"
  shows "paragraph_content (c @ PARA_SEP @ rest) = paragraph_content c @ paragraph_content rest"
  using split_sep_append [OF assms, of "[]" rest]
  by (simp add: paragraph_content_def split_def piece_content_append)

lemma content_join:
  assumes "\<forall>c\<in>set cs. c = [] \<or> last c \<noteq> NL"
  shows "paragraph_content (join PARA_SEP cs) = concat (map paragraph_content cs)"
  using assms
proof (induction PARA_SEP cs rule: join.induct)
  case 1
  then show ?case by (simp add: paragraph_content_Nil)
next
  case (2 x)
  then show ?case by simp
next
  case (3 x y ys)
  then show ?case
    by (simp add: content_append_sep)
qed

lemma sample_content: "paragraph_content sample_text = [''abcdefgh'', ''x'', ''y'']"
  by (simp add: paragraph_content_def sample_split piece_content_def sample_strips)

section \<open>Splitting and joining\<close>

text \<open>
  C8. For every text and every \<open>chunk_size\<close>, the chunks joined by the paragraph
  delimiter have the paragraph content of the text: split again at the delimiter, they
  give the same non-empty stripped paragraphs, in the same order.
\<close>

theorem join_chunks_keeps_paragraph_content:
  "paragraph_content (join PARA_SEP (paragraph_chunk_split text chunk_size)) =
     paragraph_content text"
proof -
  let ?ps = "split text PARA_SEP"
  let ?chunks = "final_flush (chunk_loop chunk_size ?ps [] [])"
  have "\<forall>c\<in>set ?chunks. c = [] \<or> last c \<noteq> NL"
    by (rule chunk_loop_stripped) simp
  then have "paragraph_content (join PARA_SEP ?chunks) = concat (map paragraph_content ?chunks)"
    by (rule content_join)
  also have "\<dots> = concat (map paragraph_content []) @ piece_content [] @ piece_content ?ps"
    by (rule chunk_loop_content) (simp_all add: split_pieces_no_sep)
  finally show ?thesis
    by (simp add: paragraph_chunk_split_flush paragraph_content_def piece_content_def [of "[]"])
qed

theorem join_chunks_keeps_paragraph_content_witness:
  "paragraph_chunk_split sample_text 7 = [''abcdefgh'', ''x'' @ PARA_SEP @ ''y'']
   \<and> paragraph_content (join PARA_SEP [''abcdefgh'', ''x'' @ PARA_SEP @ ''y'']) =
       [''abcdefgh'', ''x'', ''y'']
   \<and> paragraph_content sample_text = [''abcdefgh'', ''x'', ''y'']"
  using join_chunks_keeps_paragraph_content [of sample_text 7]
  by (simp add: sample_oversized_chunks sample_content)

text \<open>
  Empty paragraphs are not part of that content and are not all kept: a text that begins
  with the delimiter loses it, so the joined chunks need not be the stripped paragraphs
  joined.
\<close>

lemma join_chunks_drops_empty_paragraph:
  "join PARA_SEP (paragraph_chunk_split (PARA_SEP @ ''a'') 2000) = ''a''
   \<and> join PARA_SEP (map strip (split (PARA_SEP @ ''a'') PARA_SEP)) = PARA_SEP @ ''a''"
  by (simp add: paragraph_chunk_split_def split_def split_from_Nil split_from_Cons startswith_def
      PARA_SEP_def NL_def strip_def lstrip_def rstrip_def isspace_def)

section \<open>Facts about the two-page document and the echoing service\<close>

lemma has_sep_NL: "has_sep s \<Longrightarrow> NL \<in> set s"
  by (induction s rule: has_sep.induct) auto


lemma replicate_plain:
  assumes "0 < n" and "\<not> isspace c"
  shows "strip (replicate n c) = replicate n c"
    and "\<not> has_sep (replicate n c)"
    and "replicate n c = [] \<or> last (replicate n c) \<noteq> NL"
proof -
  from assms have "hd (replicate n c) = c" and "last (replicate n c) = c"
    by simp_all
  with assms show "strip (replicate n c) = replicate n c"
    by (intro strip_id) simp
  from assms(2) isspace_NL have "c \<noteq> NL"
    by auto
  then show "\<not> has_sep (replicate n c)"
    using has_sep_NL [of "replicate n c"] by auto
  from \<open>c \<noteq> NL\<close> \<open>last (replicate n c) = c\<close>
  show "replicate n c = [] \<or> last (replicate n c) \<noteq> NL"
    by simp
qed

lemma page_facts:
  "strip page_a = page_a" "strip page_b = page_b"
  "\<not> has_sep page_a" "\<not> has_sep page_b"
  "page_a = [] \<or> last page_a \<noteq> NL"
  "length page_a = 1500" "length page_b = 1500"
  "page_a \<noteq> page_b"
proof -
  have a: "\<not> isspace CHR ''a''" and b: "\<not> isspace CHR ''b''"
    by (simp_all add: isspace_def)
  show "strip page_a = page_a" "\<not> has_sep page_a" "page_a = [] \<or> last page_a \<noteq> NL"
    unfolding page_a_def by (rule replicate_plain [OF _ a], simp)+
  show "strip page_b = page_b" "\<not> has_sep page_b"
    unfolding page_b_def by (rule replicate_plain [OF _ b], simp)+
  show "length page_a = 1500" "length page_b = 1500"
    by (simp_all add: page_a_def page_b_def)
  have "hd page_a = CHR ''a''" "hd page_b = CHR ''b''"
    by (simp_all add: page_a_def page_b_def)
  then show "page_a \<noteq> page_b"
    by auto
qed



lemma echo_llm: "llm_ainvoke (echo_env pages) prompt n = (Inr (echo_answer prompt), Suc n)"
  and echo_pdf_load: "pdf_load (echo_env pages) path n = (Inr pages, n)"
  and echo_makedirs: "makedirs (echo_env pages) dir n = (Inr (), n)"
  and echo_docx_save: "docx_save (echo_env pages) paras path n = (Inr (), n)"
  by (simp_all add: echo_env_def)

lemma strip_echo_correct: "strip (echo_answer (correct_prompt c)) = correct_prompt c"
proof -
  have space: "isspace CHR '' ''" and "\<not> isspace CHR ''C''" and "\<not> isspace CHR '':''"
    by (simp_all add: isspace_def)
  moreover have "hd (correct_prompt c) = CHR ''C''" and "last (correct_prompt c) = CHR '':''"
    by (simp_all add: correct_prompt_def)
  ultimately have "strip (correct_prompt c) = correct_prompt c"
    by (intro strip_id) simp
  moreover have "strip (echo_answer (correct_prompt c)) = strip (correct_prompt c)"
    using strip_snoc_space [OF space, of "CHR '' '' # correct_prompt c"]
      strip_Cons_space [OF space, of "correct_prompt c"]
    by (simp add: echo_answer_def)
  ultimately show ?thesis
    by simp
qed


lemma echo_correct_run:
  "correction_workflow (echo_env pages) echo_checked_state n =
     (Inr echo_corrected_state, Suc (Suc n))"
  using sample_output_path
  by (simp add: correction_workflow_cases correct_document_node_def echo_llm strip_echo_correct
      save_corrected_doc_node_def echo_makedirs echo_docx_save echo_checked_state_def
      echo_corrected_state_def new_state_def PARA_SEP_def)



lemma echo_correct_executor:
  assumes "fs ''job1'' = Some echo_checked_info"
  shows "process_document_correction (echo_env pages) ''job1'' fs n =
           (Inr (), fs(''job1'' \<mapsto> echo_corrected_info), Suc (Suc n))"
  using process_document_correction_Inr
      [where fs = fs and file_id = "''job1''" and info = echo_checked_info
         and env = "echo_env pages" and w = n and ?state0.0 = echo_checked_state
         and state = echo_corrected_state and w' = "Suc (Suc n)"]
    echo_correct_run [of pages n] assms
  by (simp add: echo_checked_info_def echo_corrected_info_def echo_corrected_state_def)

lemma list_all_takeWhile: "list_all P (takeWhile P xs)"
  by (induction xs) simp_all

text \<open>What \<open>strip\<close> removes is whitespace, in front and behind.\<close>

lemma strip_decomposition:
  "\<exists>lead trail. s = lead @ strip s @ trail \<and> list_all isspace lead \<and> list_all isspace trail"
proof -
  have 1: "s = rstrip s @ rev (takeWhile isspace (rev s))"
    unfolding rstrip_def
    by (metis rev_append rev_rev_ident takeWhile_dropWhile_id)
  have 2: "rstrip s = takeWhile isspace (rstrip s) @ strip s"
    by (simp add: strip_def lstrip_def)
  have "s = takeWhile isspace (rstrip s) @ strip s @ rev (takeWhile isspace (rev s))"
    using 1 2 by (metis append_assoc)
  moreover have "list_all isspace (takeWhile isspace (rstrip s))"
    by (rule list_all_takeWhile)
  moreover have "list_all isspace (rev (takeWhile isspace (rev s)))"
    using list_all_takeWhile [of isspace "rev s"] by (simp add: list_all_iff)
  ultimately show ?thesis
    by blast
qed

text \<open>The joined text, written out: each element after the first follows a separator.\<close>

lemma join_separated:
  "join sep xs = (case xs of [] \<Rightarrow> [] | c # cs \<Rightarrow> c @ concat (map (\<lambda>x. sep @ x) cs))"
  by (induction sep xs rule: join.induct) simp_all

section \<open>The Correct stage\<close>

text \<open>
  C9. Take a job of the store that holds a workflow state, and a run of the correction
  executor that leaves the job with the status \<open>correction_complete\<close>. Then the job has
  one corrected chunk per chunk of that state. The corrected chunk at each index is the
  stripped answer of the text service to the correction prompt, written out below, that
  carries the chunk at that index between its instructions and its closing line: the
  answer is the corrected chunk with whitespace alone in front of it and behind it. No
  corrected chunk begins or ends with a whitespace character. \<open>final_corrected_doc\<close> is
  the corrected chunks joined by the paragraph delimiter: the first corrected chunk,
  then each further one after two newlines.
\<close>

theorem corrected_chunks_stripped_and_joined:
  assumes "fs file_id = Some info"
    and "fi_state info = Some state0"
    and "process_document_correction env file_id fs w = (r, fs', w')"
    and "fs' file_id = Some info'"
    and "fi_status info' = ''correction_complete''"
  shows "length (fi_corrected_chunks info') = length (chunks state0)
       \<and> (\<forall>i<length (chunks state0). \<exists>wi wi' content lead trail.
            llm_ainvoke env
              (''Correct the following text to fully comply with English grammar, style, clarity, '' @
               ''and professional writing rules.'' @ [NL, NL] @
               ''INSTRUCTIONS:'' @ [NL] @
               ''1. Return ONLY the corrected text.'' @ [NL] @
               ''2. Do NOT add any explanations, summaries, or extra comments.'' @ [NL] @
               ''3. Keep the original paragraph structure.'' @ [NL] @
               ''4. Maintain the original meaning.'' @ [NL, NL] @
               ''ORIGINAL TEXT:'' @ [NL] @ chunks state0 ! i @ [NL, NL] @
               ''CORRECTED TEXT:'') wi = (Inr content, wi') \<and>
            fi_corrected_chunks info' ! i = strip content \<and>
            content = lead @ fi_corrected_chunks info' ! i @ trail \<and>
            list_all isspace lead \<and> list_all isspace trail)
       \<and> (\<forall>c\<in>set (fi_corrected_chunks info').
            c = [] \<or> (\<not> isspace (hd c) \<and> \<not> isspace (last c)))
       \<and> fi_final_corrected_doc info' = join PARA_SEP (fi_corrected_chunks info')
       \<and> fi_final_corrected_doc info' =
           (case fi_corrected_chunks info' of
              [] \<Rightarrow> []
            | c # cs \<Rightarrow> c @ concat (map (\<lambda>x. [NL, NL] @ x) cs))"
  unfolding correct_prompt_def [symmetric]
proof -
  from correction_status_complete [OF assms(1,3,4,5)] assms(2) obtain s where
    run: "correction_workflow env state0 w = (Inr s, w')" and
    info': "fi_corrected_chunks info' = corrected_chunks s"
      "fi_final_corrected_doc info' = final_corrected_doc s"
    by auto
  note facts = correction_workflow_Inr [OF run]
  have ends: "c = [] \<or> (\<not> isspace (hd c) \<and> \<not> isspace (last c))"
    if "c \<in> set (corrected_chunks s)" for c
  proof -
    from that obtain i where i: "i < length (corrected_chunks s)" "c = corrected_chunks s ! i"
      by (auto simp add: in_set_conv_nth)
    with facts(4,5) obtain content where "c = strip content"
      by auto
    then show ?thesis
      using strip_no_whitespace_ends [of content] by simp
  qed
  have calls: "\<exists>wi wi' content lead trail.
      llm_ainvoke env (correct_prompt (chunks state0 ! i)) wi = (Inr content, wi') \<and>
      corrected_chunks s ! i = strip content \<and>
      content = lead @ corrected_chunks s ! i @ trail \<and>
      list_all isspace lead \<and> list_all isspace trail"
    if "i < length (chunks state0)" for i
  proof -
    from facts(5) that obtain wi wi' content where
      call: "llm_ainvoke env (correct_prompt (chunks state0 ! i)) wi = (Inr content, wi')" and
      stripped: "corrected_chunks s ! i = strip content"
      by blast
    from strip_decomposition [of content] obtain lead trail where
      parts: "content = lead @ strip content @ trail" and
      space: "list_all isspace lead" "list_all isspace trail"
      by blast
    from parts stripped have "content = lead @ corrected_chunks s ! i @ trail"
      by simp
    with call stripped space show ?thesis
      by blast
  qed
  have joined: "final_corrected_doc s =
      (case corrected_chunks s of
         [] \<Rightarrow> []
       | c # cs \<Rightarrow> c @ concat (map (\<lambda>x. [NL, NL] @ x) cs))"
  proof -
    have "final_corrected_doc s = join [NL, NL] (corrected_chunks s)"
      using facts(6) by (simp add: PARA_SEP_def)
    then show ?thesis
      by (simp only: join_separated)
  qed
  from facts(4,6) ends calls joined show
    "length (fi_corrected_chunks info') = length (chunks state0)
       \<and> (\<forall>i<length (chunks state0). \<exists>wi wi' content lead trail.
            llm_ainvoke env (correct_prompt (chunks state0 ! i)) wi = (Inr content, wi') \<and>
            fi_corrected_chunks info' ! i = strip content \<and>
            content = lead @ fi_corrected_chunks info' ! i @ trail \<and>
            list_all isspace lead \<and> list_all isspace trail)
       \<and> (\<forall>c\<in>set (fi_corrected_chunks info').
            c = [] \<or> (\<not> isspace (hd c) \<and> \<not> isspace (last c)))
       \<and> fi_final_corrected_doc info' = join PARA_SEP (fi_corrected_chunks info')
       \<and> fi_final_corrected_doc info' =
           (case fi_corrected_chunks info' of
              [] \<Rightarrow> []
            | c # cs \<Rightarrow> c @ concat (map (\<lambda>x. [NL, NL] @ x) cs))"
    unfolding info' by simp
qed


lemma echo_prompts_differ:
  "correct_prompt page_a \<noteq> correct_prompt page_b"
  "echo_answer (check_prompt page_a) \<noteq> echo_answer (check_prompt page_b)"
  using page_facts(8) by (simp_all add: correct_prompt_def check_prompt_def echo_answer_def)

theorem corrected_chunks_stripped_and_joined_witness:
  "process_document_correction (echo_env [page_a, page_b]) ''job1''
     (sample_store(''job1'' \<mapsto> echo_checked_info)) 2 =
   (Inr (), (sample_store(''job1'' \<mapsto> echo_checked_info))(''job1'' \<mapsto> echo_corrected_info), 4)
   \<and> fi_status echo_corrected_info = ''correction_complete''
   \<and> chunks echo_checked_state = [page_a, page_b]
   \<and> fi_corrected_chunks echo_corrected_info = [correct_prompt page_a, correct_prompt page_b]
   \<and> fi_corrected_chunks echo_corrected_info ! 0 \<noteq> fi_corrected_chunks echo_corrected_info ! 1
   \<and> length (fi_corrected_chunks echo_corrected_info) = length (chunks echo_checked_state)
   \<and> (\<exists>wi wi' content lead trail.
        llm_ainvoke (echo_env [page_a, page_b])
          (''Correct the following text to fully comply with English grammar, style, clarity, '' @
           ''and professional writing rules.'' @ [NL, NL] @
           ''INSTRUCTIONS:'' @ [NL] @
           ''1. Return ONLY the corrected text.'' @ [NL] @
           ''2. Do NOT add any explanations, summaries, or extra comments.'' @ [NL] @
           ''3. Keep the original paragraph structure.'' @ [NL] @
           ''4. Maintain the original meaning.'' @ [NL, NL] @
           ''ORIGINAL TEXT:'' @ [NL] @ chunks echo_checked_state ! 1 @ [NL, NL] @
           ''CORRECTED TEXT:'') wi = (Inr content, wi') \<and>
        fi_corrected_chunks echo_corrected_info ! 1 = strip content \<and>
        content = lead @ fi_corrected_chunks echo_corrected_info ! 1 @ trail \<and>
        list_all isspace lead \<and> list_all isspace trail)
   \<and> fi_final_corrected_doc echo_corrected_info =
       correct_prompt page_a @ [NL, NL] @ correct_prompt page_b"
proof -
  let ?fs = "sample_store(''job1'' \<mapsto> echo_checked_info)"
  have stored: "?fs ''job1'' = Some echo_checked_info"
    by simp
  have state: "fi_state echo_checked_info = Some echo_checked_state"
    by (simp add: echo_checked_info_def)
  have run: "process_document_correction (echo_env [page_a, page_b]) ''job1'' ?fs 2 =
      (Inr (), ?fs(''job1'' \<mapsto> echo_corrected_info), 4)"
    using echo_correct_executor [where fs = ?fs and pages = "[page_a, page_b]" and n = 2] stored
    by simp
  have after: "(?fs(''job1'' \<mapsto> echo_corrected_info)) ''job1'' = Some echo_corrected_info"
    by simp
  have status: "fi_status echo_corrected_info = ''correction_complete''"
    by (simp add: echo_corrected_info_def)
  have two: "chunks echo_checked_state = [page_a, page_b]"
    and "(1::nat) < length (chunks echo_checked_state)"
    by (simp_all add: echo_checked_state_def)
  note t = corrected_chunks_stripped_and_joined
    [where fs = ?fs and file_id = "''job1''" and info = echo_checked_info
       and ?state0.0 = echo_checked_state and env = "echo_env [page_a, page_b]" and w = 2
       and info' = echo_corrected_info, OF stored state run after status]
  from t have len: "length (fi_corrected_chunks echo_corrected_info) =
      length (chunks echo_checked_state)"
    by (rule conjunct1)
  from t \<open>1 < length (chunks echo_checked_state)\<close> have second: "\<exists>wi wi' content lead trail.
        llm_ainvoke (echo_env [page_a, page_b])
          (''Correct the following text to fully comply with English grammar, style, clarity, '' @
           ''and professional writing rules.'' @ [NL, NL] @
           ''INSTRUCTIONS:'' @ [NL] @
           ''1. Return ONLY the corrected text.'' @ [NL] @
           ''2. Do NOT add any explanations, summaries, or extra comments.'' @ [NL] @
           ''3. Keep the original paragraph structure.'' @ [NL] @
           ''4. Maintain the original meaning.'' @ [NL, NL] @
           ''ORIGINAL TEXT:'' @ [NL] @ chunks echo_checked_state ! 1 @ [NL, NL] @
           ''CORRECTED TEXT:'') wi = (Inr content, wi') \<and>
        fi_corrected_chunks echo_corrected_info ! 1 = strip content \<and>
        content = lead @ fi_corrected_chunks echo_corrected_info ! 1 @ trail \<and>
        list_all isspace lead \<and> list_all isspace trail"
    by blast
  have explicit: "fi_corrected_chunks echo_corrected_info =
      [correct_prompt page_a, correct_prompt page_b]"
    and doc: "fi_final_corrected_doc echo_corrected_info =
      correct_prompt page_a @ [NL, NL] @ correct_prompt page_b"
    by (simp_all add: echo_corrected_info_def)
  from explicit echo_prompts_differ(1) have differ:
    "fi_corrected_chunks echo_corrected_info ! 0 \<noteq> fi_corrected_chunks echo_corrected_info ! 1"
    by simp
  from run status two explicit differ len second doc show ?thesis
    by blast
qed

section \<open>Correspondence of chunks, reports and corrections\<close>




end
